theory Spec2Isabelle
  imports Main "HOL-Library.Sublist"
begin

section \<open>Batched video generation with resilient polling (src/index.tsx)\<close>

text \<open>
  The program is one asynchronous function, \<^verbatim>\<open>generateVideos\<close>, with two helpers. It
  talks to a remote service (enhance the prompt, submit a batch, poll an operation, fetch
  a video) and to the page. The embedding runs it against a finite script of the answers
  of the remote service; every call the program makes to the outside is appended to a
  trace, in the order of the calls. Where the script ends before the program does, the
  awaited call has not resolved and the run is reported as such, never as finished.

  The status line of the page is written at many places (lines 26, 31, 44, 70-75, 91,
  113, 122). Only its final text is modelled: the single read of the status line
  (line 72) guards nothing but another write to it, and \<^verbatim>\<open>messageIndex\<close> and
  \<^verbatim>\<open>loadingMessages\<close> feed only that write.
\<close>

subsection \<open>Values thrown, strings\<close>

text \<open>
  A thrown value is an \<^verbatim>\<open>Error\<close> object with its message, or some other value, kept
  as what \<^verbatim>\<open>String(error)\<close> gives for it. A rejected promise is \<open>Inl\<close>.
\<close>

datatype thrown = JsError string | JsOther string

type_synonym 'a reply = "thrown + 'a"

text \<open>\<^verbatim>\<open>error instanceof Error ? error.message : String(error)\<close> (lines 97, 122).\<close>

fun message_of :: "thrown \<Rightarrow> string" where
  "message_of (JsError m) = m"
| "message_of (JsOther s) = s"

text \<open>\<^verbatim>\<open>s.startsWith(sub)\<close> and \<^verbatim>\<open>s.includes(sub)\<close>.\<close>

fun startsWith :: "string \<Rightarrow> string \<Rightarrow> bool" where
  "startsWith s [] = True"
| "startsWith [] (c # cs) = False"
| "startsWith (x # xs) (c # cs) = (x = c \<and> startsWith xs cs)"

fun str_includes :: "string \<Rightarrow> string \<Rightarrow> bool" where
  "str_includes [] sub = (sub = [])"
| "str_includes (x # xs) sub = (startsWith (x # xs) sub \<or> str_includes xs sub)"

text \<open>Line 85: only an \<^verbatim>\<open>Error\<close> whose message names the rate limit is retried.\<close>

fun isRateLimitError :: "thrown \<Rightarrow> bool" where
  "isRateLimitError (JsError m) = (str_includes m ''429'' \<or> str_includes m ''RESOURCE_EXHAUSTED'')"
| "isRateLimitError (JsOther s) = False"

text \<open>
  A counter interpolated into a template string prints in decimal. The counters of the
  program stay far below \<open>2 ^ 53\<close>, where a JavaScript number is an exact integer, so
  they are natural numbers here.
\<close>

fun show_nat :: "nat \<Rightarrow> string" where
  "show_nat n =
     (if n < 10 then [''0123456789'' ! n]
      else show_nat (n div 10) @ [''0123456789'' ! (n mod 10)])"

declare show_nat.simps [simp del]

subsection \<open>The remote service\<close>

text \<open>
  An operation object, as far as the program reads it: \<^verbatim>\<open>operation.done\<close> (absent
  counts as false) and \<^verbatim>\<open>operation.response?.generatedVideos\<close> (\<open>None\<close> when the
  response or the list is absent). A generated video is the value of
  \<^verbatim>\<open>v.video?.uri\<close>: \<open>None\<close> when the video or its uri is absent.
\<close>

record operation =
  op_done :: bool
  generatedVideos :: "string option list option"

text \<open>
  One submitted job in the script: the answer to \<^verbatim>\<open>ai.models.generateVideos\<close> and
  the answers to the successive calls of \<^verbatim>\<open>ai.operations.getVideosOperation\<close> on it.
\<close>

record job =
  submitted :: "operation reply"
  polls :: "operation reply list"

text \<open>
  What \<^verbatim>\<open>fetch\<close> and \<^verbatim>\<open>response.blob()\<close> do for one video (lines 138-143): the
  fetch rejects, the response is not ok (with its status text), reading the body
  rejects, or the body arrives and \<^verbatim>\<open>URL.createObjectURL\<close> gives a URL for it.
\<close>

datatype fetch_reply =
  FetchRejected thrown
| ResponseNotOk string
| BlobRejected thrown
| ObjectURL string

text \<open>
  The script of one run. \<open>fetches\<close> and \<open>latency\<close> are indexed by the 1-based
  position of a video; the deliveries of line 116 all start at once and each one
  finishes in the order of its latency.
\<close>

record world =
  api_key :: string
  enhanced :: "string reply"
  jobs :: "job list"
  fetches :: "nat \<Rightarrow> fetch_reply"
  latency :: "nat \<Rightarrow> nat"

text \<open>
  The calls the program makes to the outside, with their arguments: the alert and its
  message, the enhancement and the user prompt that its contents quote, the submission
  with its prompt and \<^verbatim>\<open>numberOfVideos\<close>, the timer and its delay in milliseconds, the
  poll, the fetch and its url, the click on a download link with its address and file
  name, and \<^verbatim>\<open>console.error\<close> with its label and the value it logs.
\<close>

datatype event =
  Alert string
| GenerateContent string
| Submit string nat
| Sleep nat
| Poll
| Fetch string
| Click string string
| ConsoleError string thrown

text \<open>
  Read off a trace: the numbers of videos that the submissions asked for, in order, and
  the number of polls.
\<close>

definition requested :: "event list \<Rightarrow> nat list" where
  "requested tr = concat (map (\<lambda>e. case e of Submit p n \<Rightarrow> [n] | _ \<Rightarrow> []) tr)"

definition poll_count :: "event list \<Rightarrow> nat" where
  "poll_count tr = length (filter (\<lambda>e. e = Poll) tr)"

subsection \<open>The poll loop (lines 64-100)\<close>

definition maxPollRetries :: nat where
  "maxPollRetries = 5"

record poll_state =
  operation :: operation
  pollRetries :: nat
  pollDelay :: nat
  plog :: "event list"

text \<open>Lines 64-66, with the operation that the submission returned.\<close>

definition poll_init :: "operation \<Rightarrow> poll_state" where
  "poll_init op = \<lparr>operation = op, pollRetries = 0, pollDelay = 20000, plog = []\<rparr>"

datatype poll_step_result = Continue poll_state | Raise thrown poll_state

text \<open>
  One turn of the loop body (lines 77-99) on the answer of the poll: wait
  \<open>pollDelay\<close>, poll, then either take the new operation and reset the counters, or
  back off, or throw.
\<close>

definition poll_step :: "poll_state \<Rightarrow> operation reply \<Rightarrow> poll_step_result" where
  "poll_step s r =
     (let s1 = s\<lparr>plog := plog s @ [Sleep (pollDelay s), Poll]\<rparr> in
      case r of
        Inr op' \<Rightarrow> Continue (s1\<lparr>operation := op', pollRetries := 0, pollDelay := 20000\<rparr>)
      | Inl e \<Rightarrow>
          if isRateLimitError e \<and> pollRetries s < maxPollRetries
          then Continue (s1\<lparr>pollRetries := pollRetries s + 1,
                           pollDelay := min 60000 (pollDelay s * 2)\<rparr>)
          else Raise (JsError (''Polling failed after '' @ show_nat (pollRetries s)
                                 @ '' retries: '' @ message_of e)) s1)"

datatype poll_outcome = Completed poll_state | PollThrown thrown poll_state | Awaiting poll_state

text \<open>
  \<^verbatim>\<open>while (!operation.done)\<close>. \<open>Awaiting\<close>: the operation is not done and the script
  has no further answer.
\<close>

fun poll_loop :: "poll_state \<Rightarrow> operation reply list \<Rightarrow> poll_outcome" where
  "poll_loop s [] = (if op_done (operation s) then Completed s else Awaiting s)"
| "poll_loop s (r # rs) =
     (if op_done (operation s) then Completed s
      else case poll_step s r of
             Continue s' \<Rightarrow> poll_loop s' rs
           | Raise e s' \<Rightarrow> PollThrown e s')"

subsection \<open>The batch loop (lines 34-110)\<close>

definition totalVideosToGenerate :: nat where
  "totalVideosToGenerate = 5"

definition maxVideosPerRequest :: nat where
  "maxVideosPerRequest = 2"

record batch_state =
  allVideoUris :: "string list"
  videosGenerated :: nat
  batchNumber :: nat
  trace :: "event list"

text \<open>Lines 36-38, after the calls made so far.\<close>

definition batch_init :: "event list \<Rightarrow> batch_state" where
  "batch_init tr = \<lparr>allVideoUris = [], videosGenerated = 0, batchNumber = 1, trace = tr\<rparr>"

text \<open>
  Line 106: \<^verbatim>\<open>generatedVideos.map(v => v.video?.uri).filter(Boolean)\<close>. The filter
  drops an absent uri and the empty string, and keeps the order of the rest.
\<close>

fun batchVideoUris :: "string option list \<Rightarrow> string list" where
  "batchVideoUris [] = []"
| "batchVideoUris (None # vs) = batchVideoUris vs"
| "batchVideoUris (Some u # vs) = (if u = [] then batchVideoUris vs else u # batchVideoUris vs)"

text \<open>Line 42.\<close>

definition videosInThisBatch :: "nat \<Rightarrow> nat \<Rightarrow> batch_state \<Rightarrow> nat" where
  "videosInThisBatch totalCount maxPerBatch st = min maxPerBatch (totalCount - videosGenerated st)"

text \<open>Line 103.\<close>

definition no_videos_error :: "nat \<Rightarrow> thrown" where
  "no_videos_error n =
     JsError (''Video generation batch '' @ show_nat n @ '' failed to produce any videos.'')"

datatype batch_step_result = Next batch_state | Abort thrown batch_state | Hang batch_state

text \<open>
  One turn of the outer loop body (lines 42-109) on the next job of the script: submit,
  poll to the end, check the response, collect the uris.
\<close>

definition run_batch :: "nat \<Rightarrow> nat \<Rightarrow> string \<Rightarrow> batch_state \<Rightarrow> job \<Rightarrow> batch_step_result" where
  "run_batch totalCount maxPerBatch prompt st j =
     (let st1 = st\<lparr>trace := trace st @ [Submit prompt (videosInThisBatch totalCount maxPerBatch st)]\<rparr> in
      case submitted j of
        Inl e \<Rightarrow> Abort e st1
      | Inr op \<Rightarrow>
          (case poll_loop (poll_init op) (polls j) of
             Awaiting ps \<Rightarrow> Hang (st1\<lparr>trace := trace st1 @ plog ps\<rparr>)
           | PollThrown e ps \<Rightarrow> Abort e (st1\<lparr>trace := trace st1 @ plog ps\<rparr>)
           | Completed ps \<Rightarrow>
               (let st2 = st1\<lparr>trace := trace st1 @ plog ps\<rparr> in
                case generatedVideos (operation ps) of
                  None \<Rightarrow> Abort (no_videos_error (batchNumber st)) st2
                | Some vs \<Rightarrow>
                    if vs = [] then Abort (no_videos_error (batchNumber st)) st2
                    else Next (st2\<lparr>allVideoUris := allVideoUris st @ batchVideoUris vs,
                                   videosGenerated := videosGenerated st + length (batchVideoUris vs),
                                   batchNumber := batchNumber st + 1\<rparr>))))"

datatype batch_outcome = Finished batch_state | Thrown thrown batch_state | Stalled batch_state

text \<open>
  \<^verbatim>\<open>while (videosGenerated < totalVideosToGenerate)\<close>. \<open>Stalled\<close>: more videos are
  needed and the script has no further job, or a poll of the current job is awaited.
\<close>

fun batch_loop :: "nat \<Rightarrow> nat \<Rightarrow> string \<Rightarrow> batch_state \<Rightarrow> job list \<Rightarrow> batch_outcome" where
  "batch_loop totalCount maxPerBatch prompt st [] =
     (if videosGenerated st < totalCount then Stalled st else Finished st)"
| "batch_loop totalCount maxPerBatch prompt st (j # js) =
     (if videosGenerated st < totalCount
      then case run_batch totalCount maxPerBatch prompt st j of
             Next st' \<Rightarrow> batch_loop totalCount maxPerBatch prompt st' js
           | Abort e st' \<Rightarrow> Thrown e st'
           | Hang st' \<Rightarrow> Stalled st'
      else Finished st)"

text \<open>
  The operation on which the poll loop of a job ends, and the uris it carries: what the
  remote service returned for that job.
\<close>

definition terminal :: "job \<Rightarrow> operation option" where
  "terminal j =
     (case submitted j of
        Inl e \<Rightarrow> None
      | Inr op \<Rightarrow>
          (case poll_loop (poll_init op) (polls j) of
             Completed ps \<Rightarrow> Some (operation ps)
           | PollThrown e ps \<Rightarrow> None
           | Awaiting ps \<Rightarrow> None))"

definition delivered :: "job \<Rightarrow> string list" where
  "delivered j =
     (case terminal j of
        None \<Rightarrow> []
      | Some op \<Rightarrow> (case generatedVideos op of None \<Rightarrow> [] | Some vs \<Rightarrow> batchVideoUris vs))"

subsection \<open>The page and the delivery of the videos (lines 113-118, 136-189)\<close>

datatype item = VideoContainer string string | ErrorContainer string

record page =
  resultsSection :: "item list"
  statusMessage :: string
  generateButtonDisabled :: bool
  statusSectionDisplay :: string

text \<open>Lines 180-189.\<close>

definition setLoading :: "bool \<Rightarrow> string \<Rightarrow> page \<Rightarrow> page" where
  "setLoading isLoading msg pg =
     (if isLoading
      then pg\<lparr>generateButtonDisabled := True, statusSectionDisplay := ''flex'',
              statusMessage := msg\<rparr>
      else pg\<lparr>generateButtonDisabled := False, statusSectionDisplay := ''none''\<rparr>)"

text \<open>
  \<^verbatim>\<open>displayAndDownloadVideo\<close> runs up to its first \<^verbatim>\<open>await\<close> when it is called: the
  \<^verbatim>\<open>fetch\<close> of line 138 is issued at once.
\<close>

definition fetch_call :: "string \<Rightarrow> string \<Rightarrow> event" where
  "fetch_call key uri = Fetch (uri @ ''&key='' @ key)"

text \<open>
  The rest of \<^verbatim>\<open>displayAndDownloadVideo\<close> for the video at position \<open>index\<close>, once
  the fetch has settled: lines 139-169, or the handler of lines 171-177. Nothing in it
  is awaited after the body has arrived, so it runs in one piece.
\<close>

definition displayAndDownloadVideo :: "fetch_reply \<Rightarrow> nat \<Rightarrow> page \<times> event list \<Rightarrow> page \<times> event list" where
  "displayAndDownloadVideo r index pt =
     (let pg = fst pt; tr = snd pt;
          failed = (\<lambda>e.
            (pg\<lparr>resultsSection := resultsSection pg
                   @ [ErrorContainer (''Could not load video '' @ show_nat index @ ''.'')]\<rparr>,
             tr @ [ConsoleError (''Failed to process video '' @ show_nat index @ '':'') e]))
      in case r of
           FetchRejected e \<Rightarrow> failed e
         | ResponseNotOk statusText \<Rightarrow>
             failed (JsError (''Failed to fetch video '' @ show_nat index @ '': '' @ statusText))
         | BlobRejected e \<Rightarrow> failed e
         | ObjectURL videoUrl \<Rightarrow>
             (pg\<lparr>resultsSection := resultsSection pg
                   @ [VideoContainer videoUrl (''Video '' @ show_nat index)]\<rparr>,
              tr @ [Click videoUrl (''generated_video_'' @ show_nat index @ ''.mp4'')]))"

text \<open>
  Line 116: \<^verbatim>\<open>Promise.all\<close> over the deliveries. All fetches are issued in the order
  of the positions; the deliveries then finish in the order of their latencies.
\<close>

definition arrival :: "world \<Rightarrow> nat \<Rightarrow> nat list" where
  "arrival w n = sort_key (latency w) [1..<Suc n]"

definition deliver_all :: "world \<Rightarrow> string list \<Rightarrow> page \<times> event list \<Rightarrow> page \<times> event list" where
  "deliver_all w uris pt =
     fold (\<lambda>index. displayAndDownloadVideo (fetches w index) index)
          (arrival w (length uris))
          (fst pt, snd pt @ map (fetch_call (api_key w)) uris)"

subsection \<open>The whole run (lines 19-126)\<close>

datatype run = Returned page "event list" | Unsettled "event list"

text \<open>Lines 120-125: the handler and the \<^verbatim>\<open>finally\<close> block.\<close>

definition report_failure :: "thrown \<Rightarrow> page \<Rightarrow> event list \<Rightarrow> run" where
  "report_failure e pg tr =
     Returned (setLoading False [] (pg\<lparr>statusMessage := ''An error occurred: '' @ message_of e\<rparr>))
              (tr @ [ConsoleError ''Video generation failed:'' e])"

definition generateVideos :: "world \<Rightarrow> page \<Rightarrow> string \<Rightarrow> run" where
  "generateVideos w pg userPrompt =
     (if userPrompt = [] then Returned pg [Alert ''Please enter a video description.'']
      else
        let pg1 = (setLoading True ''Warming up the creative engine...'' pg)\<lparr>resultsSection := []\<rparr>;
            tr1 = [GenerateContent userPrompt]
        in case enhanced w of
             Inl e \<Rightarrow> report_failure e pg1 tr1
           | Inr enhancedPrompt \<Rightarrow>
               (case batch_loop totalVideosToGenerate maxVideosPerRequest enhancedPrompt
                       (batch_init tr1) (jobs w) of
                  Stalled st \<Rightarrow> Unsettled (trace st)
                | Thrown e st \<Rightarrow> report_failure e pg1 (trace st)
                | Finished st \<Rightarrow>
                    (let pt = deliver_all w (allVideoUris st)
                                (pg1\<lparr>statusMessage :=
                                       ''Finalizing all videos and preparing for download...''\<rparr>,
                                 trace st)
                     in Returned (setLoading False [] (fst pt)) (snd pt))))"

subsection \<open>Notions used in the statements\<close>

text \<open>The state in which a poll loop stopped, however it stopped.\<close>

fun outcome_state :: "poll_outcome \<Rightarrow> poll_state" where
  "outcome_state (Completed s) = s"
| "outcome_state (PollThrown e s) = s"
| "outcome_state (Awaiting s) = s"

text \<open>The poll loop of the job ends on a response with at least one generated video.\<close>

definition has_videos :: "job \<Rightarrow> bool" where
  "has_videos j =
     (case terminal j of
        None \<Rightarrow> False
      | Some op \<Rightarrow> (case generatedVideos op of None \<Rightarrow> False | Some vs \<Rightarrow> vs \<noteq> []))"

text \<open>
  The delay after \<open>k\<close> retries that started from the delay \<open>d\<close>, and the
  calls of \<open>k\<close> polls that were each answered by a rate limit.
\<close>

fun backoff :: "nat \<Rightarrow> nat \<Rightarrow> nat" where
  "backoff d 0 = d"
| "backoff d (Suc k) = backoff (min 60000 (d * 2)) k"

fun backoff_log :: "nat \<Rightarrow> nat \<Rightarrow> event list" where
  "backoff_log d 0 = []"
| "backoff_log d (Suc k) = Sleep d # Poll # backoff_log (min 60000 (d * 2)) k"

text \<open>
  What the delivery of one video adds to the results area and to the trace, by the
  outcome of its fetch.
\<close>

definition shown :: "fetch_reply \<Rightarrow> nat \<Rightarrow> item" where
  "shown r index =
     (case r of
        ObjectURL videoUrl \<Rightarrow> VideoContainer videoUrl (''Video '' @ show_nat index)
      | _ \<Rightarrow> ErrorContainer (''Could not load video '' @ show_nat index @ ''.''))"

definition logged :: "fetch_reply \<Rightarrow> nat \<Rightarrow> event" where
  "logged r index =
     (case r of
        FetchRejected e \<Rightarrow> ConsoleError (''Failed to process video '' @ show_nat index @ '':'') e
      | ResponseNotOk statusText \<Rightarrow>
          ConsoleError (''Failed to process video '' @ show_nat index @ '':'')
            (JsError (''Failed to fetch video '' @ show_nat index @ '': '' @ statusText))
      | BlobRejected e \<Rightarrow> ConsoleError (''Failed to process video '' @ show_nat index @ '':'') e
      | ObjectURL videoUrl \<Rightarrow> Click videoUrl (''generated_video_'' @ show_nat index @ ''.mp4''))"

subsection \<open>Scripts for the examples\<close>

text \<open>
  An operation that is not done, one that is done with the given videos, and a job that
  is submitted as the first and answers its first poll with the second.
\<close>

definition pending :: operation where
  "pending = \<lparr>op_done = False, generatedVideos = None\<rparr>"

definition finished_with :: "string option list \<Rightarrow> operation" where
  "finished_with vs = \<lparr>op_done = True, generatedVideos = Some vs\<rparr>"

definition polled_once :: "string option list \<Rightarrow> job" where
  "polled_once vs = \<lparr>submitted = Inr pending, polls = [Inr (finished_with vs)]\<rparr>"

text \<open>
  A page that shows the results of an earlier run, a world whose second batch fails
  while it is polled, and a world whose third video cannot be fetched.
\<close>

definition plain_page :: page where
  "plain_page = \<lparr>resultsSection = [ErrorContainer ''Could not load video 1.''],
                  statusMessage = [], generateButtonDisabled = False,
                  statusSectionDisplay = ''none''\<rparr>"

definition second_batch_fails :: world where
  "second_batch_fails =
     \<lparr>api_key = ''K'', enhanced = Inr ''a cat, portrait'',
      jobs = [polled_once [Some ''u1'', Some ''u2''],
              \<lparr>submitted = Inr pending, polls = [Inl (JsError ''500 Internal error'')]\<rparr>,
              polled_once [Some ''u5'']],
      fetches = (\<lambda>i. ObjectURL (''blob:'' @ show_nat i)),
      latency = (\<lambda>i. i)\<rparr>"

definition third_fetch_fails :: world where
  "third_fetch_fails =
     \<lparr>api_key = ''K'', enhanced = Inr ''a cat, portrait'',
      jobs = [polled_once [Some ''u1'', Some ''u2''], polled_once [Some ''u3'', Some ''u4''],
              polled_once [Some ''u5'']],
      fetches = (\<lambda>i. if i = 3 then ResponseNotOk ''Forbidden''
                      else ObjectURL (''blob:'' @ show_nat i)),
      latency = (\<lambda>i. 10 - i)\<rparr>"

section \<open>Properties\<close>

subsection \<open>Strings\<close>

text \<open>\<open>str_includes\<close> is the test for a contiguous substring.\<close>

lemma startsWith_prefix: "startsWith s sub \<longleftrightarrow> prefix sub s"
  by (induction s sub rule: startsWith.induct) auto

lemma str_includes_sublist: "str_includes s sub \<longleftrightarrow> sublist sub s"
  by (induction s) (simp_all add: startsWith_prefix sublist_Cons_right)

subsection \<open>The trace of a batch\<close>

lemma requested_append: "requested (xs @ ys) = requested xs @ requested ys"
  by (simp add: requested_def)

lemma requested_simps:
  "requested [] = []"
  "requested (Submit p n # tr) = n # requested tr"
  "requested (Sleep d # tr) = requested tr"
  "requested (Poll # tr) = requested tr"
  "requested (GenerateContent u # tr) = requested tr"
  by (simp_all add: requested_def)

lemma poll_count_append: "poll_count (xs @ ys) = poll_count xs + poll_count ys"
  by (simp add: poll_count_def)

lemma poll_step_Continue_requested:
  "poll_step s r = Continue s' \<Longrightarrow> requested (plog s') = requested (plog s)"
  by (auto simp: poll_step_def requested_append requested_simps Let_def split: sum.splits if_splits)

lemma poll_step_Raise_requested:
  "poll_step s r = Raise e s' \<Longrightarrow> requested (plog s') = requested (plog s)"
  by (auto simp: poll_step_def requested_append requested_simps Let_def split: sum.splits if_splits)

lemma poll_loop_requested:
  "requested (plog (outcome_state (poll_loop s rs))) = requested (plog s)"
proof (induction rs arbitrary: s)
  case Nil
  show ?case by simp
next
  case (Cons r rs)
  show ?case
  proof (cases "poll_step s r")
    case (Continue s')
    with Cons [of s'] show ?thesis
      by (simp add: poll_step_Continue_requested)
  next
    case (Raise e s')
    then show ?thesis
      by (simp add: poll_step_Raise_requested)
  qed
qed

lemma poll_init_requested: "requested (plog (outcome_state (poll_loop (poll_init op) rs))) = []"
  by (simp add: poll_loop_requested) (simp add: poll_init_def requested_simps)

lemma poll_init_requested_cases:
  "poll_loop (poll_init op) rs = Completed ps \<Longrightarrow> requested (plog ps) = []"
  "poll_loop (poll_init op) rs = PollThrown e ps \<Longrightarrow> requested (plog ps) = []"
  "poll_loop (poll_init op) rs = Awaiting ps \<Longrightarrow> requested (plog ps) = []"
  using poll_init_requested [of op rs] by simp_all

lemma run_batch_Next:
  assumes "run_batch T M p st j = Next st'"
  shows "allVideoUris st' = allVideoUris st @ delivered j"
    and "videosGenerated st' = videosGenerated st + length (delivered j)"
    and "batchNumber st' = Suc (batchNumber st)"
    and "requested (trace st') = requested (trace st) @ [videosInThisBatch T M st]"
    and "has_videos j"
  using assms
  by (auto simp: run_batch_def Let_def delivered_def terminal_def has_videos_def
                 requested_append requested_simps poll_init_requested_cases
           split: sum.splits poll_outcome.splits option.splits if_splits)

lemma run_batch_Abort:
  assumes "run_batch T M p st j = Abort e st'"
  shows "allVideoUris st' = allVideoUris st"
    and "videosGenerated st' = videosGenerated st"
    and "batchNumber st' = batchNumber st"
    and "requested (trace st') = requested (trace st) @ [videosInThisBatch T M st]"
  using assms
  by (auto simp: run_batch_def Let_def requested_append requested_simps poll_init_requested_cases
           split: sum.splits poll_outcome.splits option.splits if_splits)


lemma batch_loop_Finished:
  "batch_loop T M p st js = Finished st' \<Longrightarrow>
   \<exists>k\<le>length js.
     batchNumber st' = batchNumber st + k \<and>
     allVideoUris st' = allVideoUris st @ concat (map delivered (take k js)) \<and>
     videosGenerated st' = videosGenerated st + length (concat (map delivered (take k js))) \<and>
     requested (trace st') = requested (trace st) @
       map (\<lambda>i. min M (T - (videosGenerated st + length (concat (map delivered (take i js))))))
           [0..<k] \<and>
     (\<forall>j\<in>set (take k js). has_videos j) \<and>
     (\<forall>i<k. videosGenerated st + length (concat (map delivered (take i js))) < T) \<and>
     T \<le> videosGenerated st'"
proof (induction js arbitrary: st)
  case Nil
  then show ?case
    by (auto split: if_splits)
next
  case (Cons j js)
  show ?case
  proof (cases "videosGenerated st < T")
    case False
    with Cons.prems have "st' = st" by simp
    with False show ?thesis
      by (intro exI [of _ 0]) simp
  next
    case True
    with Cons.prems obtain st1 where
      rb: "run_batch T M p st j = Next st1" and
      rest: "batch_loop T M p st1 js = Finished st'"
      by (auto split: batch_step_result.splits)
    from Cons.IH [OF rest] obtain k where
      k: "k \<le> length js" and
      bn: "batchNumber st' = batchNumber st1 + k" and
      av: "allVideoUris st' = allVideoUris st1 @ concat (map delivered (take k js))" and
      vg: "videosGenerated st' = videosGenerated st1 + length (concat (map delivered (take k js)))" and
      rq: "requested (trace st') = requested (trace st1) @
             map (\<lambda>i. min M (T - (videosGenerated st1 + length (concat (map delivered (take i js))))))
                 [0..<k]" and
      hv: "\<forall>j\<in>set (take k js). has_videos j" and
      lt: "\<forall>i<k. videosGenerated st1 + length (concat (map delivered (take i js))) < T" and
      fin: "T \<le> videosGenerated st'"
      by blast
    note nx = run_batch_Next [OF rb]
    have "Suc k \<le> length (j # js)"
      using k by simp
    moreover have "batchNumber st' = batchNumber st + Suc k"
      using bn nx(3) by simp
    moreover have "allVideoUris st' = allVideoUris st @ concat (map delivered (take (Suc k) (j # js)))"
      using av nx(1) by simp
    moreover have "videosGenerated st' =
        videosGenerated st + length (concat (map delivered (take (Suc k) (j # js))))"
      using vg nx(2) by simp
    moreover have "requested (trace st') = requested (trace st) @
        map (\<lambda>i. min M (T - (videosGenerated st + length (concat (map delivered (take i (j # js)))))))
            [0..<Suc k]"
      unfolding rq nx(4) nx(2) map_upt_Suc
      by (simp add: videosInThisBatch_def add.assoc)
    moreover have "\<forall>x\<in>set (take (Suc k) (j # js)). has_videos x"
      using hv nx(5) by simp
    moreover have "\<forall>i<Suc k.
        videosGenerated st + length (concat (map delivered (take i (j # js)))) < T"
      using lt True nx(2) by (auto simp: less_Suc_eq_0_disj add.assoc)
    ultimately show ?thesis
      using fin by blast
  qed
qed

lemma batch_loop_Thrown:
  "batch_loop T M p st js = Thrown e st' \<Longrightarrow>
   \<exists>k<length js. \<exists>stk.
     batchNumber st' = batchNumber st + k \<and>
     allVideoUris st' = allVideoUris st @ concat (map delivered (take k js)) \<and>
     videosGenerated st' = videosGenerated st + length (concat (map delivered (take k js))) \<and>
     requested (trace st') = requested (trace st) @
       map (\<lambda>i. min M (T - (videosGenerated st + length (concat (map delivered (take i js))))))
           [0..<Suc k] \<and>
     (\<forall>j\<in>set (take k js). has_videos j) \<and>
     videosGenerated st' < T \<and>
     batchNumber stk = batchNumber st' \<and>
     run_batch T M p stk (js ! k) = Abort e st'"
proof (induction js arbitrary: st)
  case Nil
  then show ?case
    by (auto split: if_splits)
next
  case (Cons j js)
  from Cons.prems have lt: "videosGenerated st < T"
    by (auto split: if_splits)
  show ?case
  proof (cases "run_batch T M p st j")
    case (Hang st1)
    with Cons.prems lt show ?thesis by simp
  next
    case (Abort e1 st1)
    with Cons.prems lt have eq: "e1 = e" "st1 = st'" by simp_all
    note ab = run_batch_Abort [OF Abort [unfolded eq]]
    have "batchNumber st = batchNumber st' \<and> run_batch T M p st j = Abort e st'"
      using ab Abort [unfolded eq] by simp
    then have "\<exists>stk. batchNumber stk = batchNumber st' \<and> run_batch T M p stk j = Abort e st'"
      by blast
    then show ?thesis
      using ab lt by (intro exI [of _ 0]) (simp add: videosInThisBatch_def)
  next
    case (Next st1)
    with Cons.prems lt have rest: "batch_loop T M p st1 js = Thrown e st'" by simp
    from Cons.IH [OF rest] obtain k stk where
      k: "k < length js" and
      bn: "batchNumber st' = batchNumber st1 + k" and
      av: "allVideoUris st' = allVideoUris st1 @ concat (map delivered (take k js))" and
      vg: "videosGenerated st' = videosGenerated st1 + length (concat (map delivered (take k js)))" and
      rq: "requested (trace st') = requested (trace st1) @
             map (\<lambda>i. min M (T - (videosGenerated st1 + length (concat (map delivered (take i js))))))
                 [0..<Suc k]" and
      hv: "\<forall>j\<in>set (take k js). has_videos j" and
      fin: "videosGenerated st' < T" and
      sk: "batchNumber stk = batchNumber st'" and
      rb: "run_batch T M p stk (js ! k) = Abort e st'"
      by blast
    note nx = run_batch_Next [OF Next]
    have "Suc k < length (j # js)"
      using k by simp
    moreover have "batchNumber st' = batchNumber st + Suc k"
      using bn nx(3) by simp
    moreover have "allVideoUris st' = allVideoUris st @ concat (map delivered (take (Suc k) (j # js)))"
      using av nx(1) by simp
    moreover have "videosGenerated st' =
        videosGenerated st + length (concat (map delivered (take (Suc k) (j # js))))"
      using vg nx(2) by simp
    moreover have "requested (trace st') = requested (trace st) @
        map (\<lambda>i. min M (T - (videosGenerated st + length (concat (map delivered (take i (j # js)))))))
            [0..<Suc (Suc k)]"
      unfolding rq nx(4) nx(2) map_upt_Suc [of _ "Suc k"]
      by (simp add: videosInThisBatch_def add.assoc)
    moreover have "\<forall>x\<in>set (take (Suc k) (j # js)). has_videos x"
      using hv nx(5) by simp
    moreover have "run_batch T M p stk ((j # js) ! Suc k) = Abort e st'"
      using rb by simp
    ultimately show ?thesis
      using fin sk by blast
  qed
qed

subsection \<open>The poll loop under rate limits\<close>

lemma backoff_closed: "backoff d k = (if k = 0 then d else min 60000 (d * 2 ^ k))"
proof (induction k arbitrary: d)
  case 0
  show ?case by simp
next
  case (Suc k)
  have "min 60000 (min 60000 (d * 2) * 2 ^ k) = min (60000::nat) (d * 2 * 2 ^ k)"
  proof (cases "d * 2 \<le> 60000")
    case True
    then show ?thesis by (simp add: min_absorb2)
  next
    case False
    then have a: "60000 \<le> d * 2" by simp
    have p: "(1::nat) \<le> 2 ^ k" by simp
    have "d * 2 \<le> d * 2 * 2 ^ k" by simp
    with a have b: "60000 \<le> d * 2 * 2 ^ k" by (rule order_trans)
    have "(60000::nat) * 1 \<le> 60000 * 2 ^ k"
      by (rule mult_le_mono2) (rule p)
    then have c: "(60000::nat) \<le> 60000 * 2 ^ k" by simp
    have "min 60000 (d * 2) = (60000::nat)"
      using a by (rule min_absorb1)
    moreover have "min (60000::nat) (60000 * 2 ^ k) = 60000"
      using c by (rule min_absorb1)
    moreover have "min (60000::nat) (d * 2 * 2 ^ k) = 60000"
      using b by (rule min_absorb1)
    ultimately show ?thesis by (simp only:)
  qed
  then show ?case
    by (simp add: Suc.IH mult.assoc)
qed

lemma backoff_base: "backoff 20000 k = min 60000 (20000 * 2 ^ k)"
  by (simp add: backoff_closed)

lemma backoff_log_shift:
  "backoff_log d k = concat (map (\<lambda>i. [Sleep (backoff d i), Poll]) [0..<k])"
proof (induction k arbitrary: d)
  case 0
  show ?case by simp
next
  case (Suc k)
  show ?case
    unfolding map_upt_Suc by (simp add: Suc.IH)
qed

lemma backoff_log_base:
  "backoff_log 20000 k = concat (map (\<lambda>i. [Sleep (min 60000 (20000 * 2 ^ i)), Poll]) [0..<k])"
  by (simp add: backoff_log_shift backoff_base)

lemma poll_count_backoff_log: "poll_count (backoff_log d k) = k"
  by (induction k arbitrary: d) (simp_all add: poll_count_def)

lemma backoff_log_Suc:
  "backoff_log d (Suc k) = backoff_log d k @ [Sleep (backoff d k), Poll]"
  by (induction k arbitrary: d) simp_all

lemma poll_step_rate_limit:
  assumes "isRateLimitError e" and "pollRetries s < maxPollRetries"
  shows "poll_step s (Inl e) =
         Continue (s\<lparr>plog := plog s @ [Sleep (pollDelay s), Poll],
                     pollRetries := pollRetries s + 1,
                     pollDelay := min 60000 (pollDelay s * 2)\<rparr>)"
  using assms by (simp add: poll_step_def)

lemma poll_step_fatal:
  assumes "\<not> isRateLimitError e \<or> \<not> pollRetries s < maxPollRetries"
  shows "poll_step s (Inl e) =
         Raise (JsError (''Polling failed after '' @ show_nat (pollRetries s)
                           @ '' retries: '' @ message_of e))
               (s\<lparr>plog := plog s @ [Sleep (pollDelay s), Poll]\<rparr>)"
  using assms by (auto simp: poll_step_def)

lemma poll_step_success:
  "poll_step s (Inr op') =
   Continue (s\<lparr>plog := plog s @ [Sleep (pollDelay s), Poll],
               operation := op', pollRetries := 0, pollDelay := 20000\<rparr>)"
  by (simp add: poll_step_def)

lemma rate_limited_polls:
  assumes "\<not> op_done (operation s)"
    and "\<forall>x\<in>set es. isRateLimitError x"
    and "pollRetries s + length es \<le> maxPollRetries"
  shows "poll_loop s (map Inl es @ rs) =
         poll_loop (s\<lparr>plog := plog s @ backoff_log (pollDelay s) (length es),
                      pollRetries := pollRetries s + length es,
                      pollDelay := backoff (pollDelay s) (length es)\<rparr>) rs"
  using assms
proof (induction es arbitrary: s)
  case Nil
  show ?case by simp
next
  case (Cons e es)
  let ?s1 = "s\<lparr>plog := plog s @ [Sleep (pollDelay s), Poll],
               pollRetries := pollRetries s + 1,
               pollDelay := min 60000 (pollDelay s * 2)\<rparr>"
  have step: "poll_step s (Inl e) = Continue ?s1"
    using Cons.prems by (intro poll_step_rate_limit) simp_all
  have "poll_loop s (map Inl (e # es) @ rs) = poll_loop ?s1 (map Inl es @ rs)"
    using Cons.prems(1) step by simp
  also have "\<dots> = poll_loop (?s1\<lparr>plog := plog ?s1 @ backoff_log (pollDelay ?s1) (length es),
                      pollRetries := pollRetries ?s1 + length es,
                      pollDelay := backoff (pollDelay ?s1) (length es)\<rparr>) rs"
    using Cons.prems by (intro Cons.IH) simp_all
  finally show ?case by simp
qed

lemma six_rate_limits_throw:
  assumes nd: "\<not> op_done (operation s)"
    and zero: "pollRetries s = 0"
    and len: "length es = 6"
    and rl: "\<forall>x\<in>set es. isRateLimitError x"
  shows "\<exists>s'. poll_loop s (map Inl es @ rest) =
              PollThrown (JsError (''Polling failed after 5 retries: '' @ message_of (last es))) s'
            \<and> operation s' = operation s \<and> pollRetries s' = 5
            \<and> poll_count (plog s') = poll_count (plog s) + 6"
proof -
  from len have ne: "es \<noteq> []" by auto
  define es5 where "es5 = butlast es"
  have split: "es = es5 @ [last es]"
    using ne by (simp add: es5_def)
  have len5: "length es5 = 5"
    using len by (simp add: es5_def)
  have rl5: "\<forall>x\<in>set es5. isRateLimitError x"
    using rl by (auto simp: es5_def dest: in_set_butlastD)
  have budget: "pollRetries s + length es5 \<le> maxPollRetries"
    using zero len5 by (simp add: maxPollRetries_def)
  let ?s5 = "s\<lparr>plog := plog s @ backoff_log (pollDelay s) (length es5),
                pollRetries := pollRetries s + length es5,
                pollDelay := backoff (pollDelay s) (length es5)\<rparr>"
  let ?s' = "?s5\<lparr>plog := plog ?s5 @ [Sleep (pollDelay ?s5), Poll]\<rparr>"
  have five: "show_nat 5 = ''5''"
    by (simp add: show_nat.simps)
  have "map Inl es @ rest = map Inl es5 @ Inl (last es) # rest"
    by (subst split) simp
  then have "poll_loop s (map Inl es @ rest) = poll_loop ?s5 (Inl (last es) # rest)"
    using rate_limited_polls [OF nd rl5 budget] by simp
  also have "\<dots> = PollThrown (JsError (''Polling failed after 5 retries: '' @ message_of (last es))) ?s'"
    using nd zero len5 five
    by (simp add: poll_step_fatal maxPollRetries_def)
  finally have "poll_loop s (map Inl es @ rest) =
      PollThrown (JsError (''Polling failed after 5 retries: '' @ message_of (last es))) ?s'" .
  moreover have "operation ?s' = operation s" by simp
  moreover have "pollRetries ?s' = 5" using zero len5 by simp
  moreover have "poll_count (plog ?s') = poll_count (plog s) + 6"
    using len5 by (simp add: poll_count_append poll_count_backoff_log) (simp add: poll_count_def)
  ultimately show ?thesis by blast
qed

subsection \<open>The guard of line 102\<close>

lemma terminal_SomeD:
  "terminal j = Some op \<Longrightarrow>
   \<exists>op0 ps. submitted j = Inr op0 \<and> poll_loop (poll_init op0) (polls j) = Completed ps
            \<and> operation ps = op"
  by (auto simp: terminal_def split: sum.splits poll_outcome.splits)

lemma run_batch_no_videos:
  assumes "terminal j = Some op"
    and "generatedVideos op = None \<or> generatedVideos op = Some []"
  shows "\<exists>st'. run_batch T M p st j = Abort (no_videos_error (batchNumber st)) st'"
proof -
  from terminal_SomeD [OF assms(1)] obtain op0 ps where
    "submitted j = Inr op0" "poll_loop (poll_init op0) (polls j) = Completed ps" "operation ps = op"
    by blast
  with assms(2) show ?thesis
    by (auto simp: run_batch_def Let_def)
qed

subsection \<open>Runs of the batch loop from its initial state\<close>

lemmas run_simps =
  run_batch_def poll_init_def poll_step_def batch_init_def videosInThisBatch_def
  no_videos_error_def terminal_def delivered_def pending_def finished_with_def polled_once_def
  maxPollRetries_def requested_simps

lemma batchVideoUris_filter:
  "batchVideoUris vs = map the (filter (\<lambda>v. v \<noteq> None \<and> v \<noteq> Some []) vs)"
  by (induction vs rule: batchVideoUris.induct) auto

lemma length_batchVideoUris: "length (batchVideoUris vs) \<le> length vs"
  by (simp add: batchVideoUris_filter)

lemma poll_loop_Completed_done:
  "poll_loop s rs = Completed ps \<Longrightarrow> op_done (operation ps)"
proof (induction rs arbitrary: s)
  case Nil
  then show ?case by (auto split: if_splits)
next
  case (Cons r rs)
  show ?case
  proof (cases "op_done (operation s)")
    case True
    with Cons.prems show ?thesis by simp
  next
    case False
    with Cons.prems obtain s' where "poll_loop s' rs = Completed ps"
      by (auto split: poll_step_result.splits)
    then show ?thesis by (rule Cons.IH)
  qed
qed

lemma terminal_done: "terminal j = Some op \<Longrightarrow> op_done op"
  by (auto simp: terminal_def poll_loop_Completed_done split: sum.splits poll_outcome.splits)

lemma has_videosD:
  "has_videos j \<Longrightarrow>
   \<exists>op vs. terminal j = Some op \<and> generatedVideos op = Some vs \<and> vs \<noteq> []
          \<and> delivered j = batchVideoUris vs"
  by (auto simp: has_videos_def delivered_def split: option.splits)

lemma finished_from_init:
  assumes "batch_loop T M p (batch_init tr) js = Finished st'"
  shows "batchNumber st' - 1 \<le> length js"
    and "allVideoUris st' = concat (map delivered (take (batchNumber st' - 1) js))"
    and "videosGenerated st' = length (concat (map delivered (take (batchNumber st' - 1) js)))"
    and "requested (trace st') = requested tr @
           map (\<lambda>i. min M (T - length (concat (map delivered (take i js)))))
               [0..<batchNumber st' - 1]"
    and "\<forall>j\<in>set (take (batchNumber st' - 1) js). has_videos j"
    and "\<forall>i<batchNumber st' - 1. length (concat (map delivered (take i js))) < T"
    and "T \<le> videosGenerated st'"
proof -
  from batch_loop_Finished [OF assms] obtain k where
    k: "k \<le> length js" "batchNumber st' = batchNumber (batch_init tr) + k" and
    rest: "allVideoUris st' = allVideoUris (batch_init tr) @ concat (map delivered (take k js))"
      "videosGenerated st' =
         videosGenerated (batch_init tr) + length (concat (map delivered (take k js)))"
      "requested (trace st') = requested (trace (batch_init tr)) @
         map (\<lambda>i. min M (T - (videosGenerated (batch_init tr)
                                 + length (concat (map delivered (take i js))))))
             [0..<k]"
      "\<forall>j\<in>set (take k js). has_videos j"
      "\<forall>i<k. videosGenerated (batch_init tr) + length (concat (map delivered (take i js))) < T"
      "T \<le> videosGenerated st'"
    by blast
  from k(2) have keq: "batchNumber st' - 1 = k"
    by (simp add: batch_init_def)
  show "batchNumber st' - 1 \<le> length js"
    using k(1) keq by simp
  show "allVideoUris st' = concat (map delivered (take (batchNumber st' - 1) js))"
    using rest(1) keq by (simp add: batch_init_def)
  show "videosGenerated st' = length (concat (map delivered (take (batchNumber st' - 1) js)))"
    using rest(2) keq by (simp add: batch_init_def)
  show "requested (trace st') = requested tr @
           map (\<lambda>i. min M (T - length (concat (map delivered (take i js)))))
               [0..<batchNumber st' - 1]"
    using rest(3) keq by (simp add: batch_init_def)
  show "\<forall>j\<in>set (take (batchNumber st' - 1) js). has_videos j"
    using rest(4) keq by simp
  show "\<forall>i<batchNumber st' - 1. length (concat (map delivered (take i js))) < T"
    using rest(5) keq by (simp add: batch_init_def)
  show "T \<le> videosGenerated st'"
    by (rule rest(6))
qed

subsection \<open>A run that is aborted\<close>

lemma poll_loop_Awaiting_not_done:
  "poll_loop s0 pre = Awaiting s \<Longrightarrow> \<not> op_done (operation s)"
proof (induction pre arbitrary: s0)
  case Nil
  then show ?case by (auto split: if_splits)
next
  case (Cons r pre)
  from Cons.prems have nd: "\<not> op_done (operation s0)"
    by (auto split: if_splits)
  with Cons.prems obtain s1 where "poll_loop s1 pre = Awaiting s"
    by (auto split: poll_step_result.splits)
  then show ?case by (rule Cons.IH)
qed

lemma poll_loop_append_Awaiting:
  "poll_loop s0 pre = Awaiting s \<Longrightarrow> poll_loop s0 (pre @ rs) = poll_loop s rs"
proof (induction pre arbitrary: s0)
  case Nil
  then have "s0 = s" and "\<not> op_done (operation s)"
    by (auto split: if_splits)
  then show ?case by simp
next
  case (Cons r pre)
  from Cons.prems have nd: "\<not> op_done (operation s0)"
    by (auto split: if_splits)
  with Cons.prems obtain s1 where
    step: "poll_step s0 r = Continue s1" and rest: "poll_loop s1 pre = Awaiting s"
    by (auto split: poll_step_result.splits)
  from Cons.IH [OF rest] nd step show ?case by simp
qed

lemma poll_loop_fatal_poll:
  assumes "poll_loop s0 pre = Awaiting s"
    and "maxPollRetries \<le> pollRetries s \<or> \<not> isRateLimitError x"
  shows "poll_loop s0 (pre @ Inl x # rest) =
         PollThrown (JsError (''Polling failed after '' @ show_nat (pollRetries s)
                                @ '' retries: '' @ message_of x))
                    (s\<lparr>plog := plog s @ [Sleep (pollDelay s), Poll]\<rparr>)"
proof -
  have nd: "\<not> op_done (operation s)"
    using assms(1) by (rule poll_loop_Awaiting_not_done)
  have fatal: "\<not> isRateLimitError x \<or> \<not> pollRetries s < maxPollRetries"
    using assms(2) by auto
  show ?thesis
    unfolding poll_loop_append_Awaiting [OF assms(1)]
    using nd by (simp add: poll_step_fatal [OF fatal])
qed

lemma run_batch_rejected:
  "submitted j = Inl e \<Longrightarrow> \<exists>st'. run_batch T M p st j = Abort e st'"
  by (simp add: run_batch_def Let_def)

lemma run_batch_poll_thrown:
  "submitted j = Inr op \<Longrightarrow> poll_loop (poll_init op) (polls j) = PollThrown e ps \<Longrightarrow>
   \<exists>st'. run_batch T M p st j = Abort e st'"
  by (simp add: run_batch_def Let_def)

lemma run_batch_has_videos:
  "has_videos j \<Longrightarrow> \<exists>st'. run_batch T M p st j = Next st'"
  by (auto simp: has_videos_def terminal_def run_batch_def Let_def
           split: option.splits sum.splits poll_outcome.splits)

lemma batch_loop_good_prefix:
  assumes "\<forall>j\<in>set good. has_videos j"
    and "videosGenerated st + length (concat (map delivered good)) < T"
  shows "\<exists>st1. (\<forall>rest. batch_loop T M p st (good @ rest) = batch_loop T M p st1 rest)
       \<and> allVideoUris st1 = allVideoUris st @ concat (map delivered good)
       \<and> videosGenerated st1 = videosGenerated st + length (concat (map delivered good))
       \<and> batchNumber st1 = batchNumber st + length good
       \<and> length (requested (trace st1)) = length (requested (trace st)) + length good"
  using assms
proof (induction good arbitrary: st)
  case Nil
  show ?case by (intro exI [of _ st]) simp
next
  case (Cons j good)
  from Cons.prems(1) have hv: "has_videos j" by simp
  from run_batch_has_videos [OF hv] obtain st0 where
    rb: "run_batch T M p st j = Next st0" by blast
  note nx = run_batch_Next [OF rb]
  from Cons.prems(2) have lt: "videosGenerated st < T" by simp
  have pre: "\<forall>j\<in>set good. has_videos j"
    "videosGenerated st0 + length (concat (map delivered good)) < T"
    using Cons.prems nx(2) by simp_all
  from Cons.IH [OF pre] obtain st1 where
    run: "\<forall>rest. batch_loop T M p st0 (good @ rest) = batch_loop T M p st1 rest" and
    av: "allVideoUris st1 = allVideoUris st0 @ concat (map delivered good)" and
    vg: "videosGenerated st1 = videosGenerated st0 + length (concat (map delivered good))" and
    bn: "batchNumber st1 = batchNumber st0 + length good" and
    rq: "length (requested (trace st1)) = length (requested (trace st0)) + length good"
    by blast
  have "\<forall>rest. batch_loop T M p st ((j # good) @ rest) = batch_loop T M p st1 rest"
    using run lt rb by simp
  moreover have "allVideoUris st1 = allVideoUris st @ concat (map delivered (j # good))"
    using av nx(1) by simp
  moreover have "videosGenerated st1 =
      videosGenerated st + length (concat (map delivered (j # good)))"
    using vg nx(2) by simp
  moreover have "batchNumber st1 = batchNumber st + length (j # good)"
    using bn nx(3) by simp
  moreover have "length (requested (trace st1)) =
      length (requested (trace st)) + length (j # good)"
    using rq nx(4) by simp
  ultimately show ?case by blast
qed

lemma batch_loop_fails_after_good:
  assumes "\<forall>j\<in>set good. has_videos j"
    and "videosGenerated st + length (concat (map delivered good)) < T"
    and "\<And>stk. \<exists>st'. run_batch T M p stk bad = Abort (err (batchNumber stk)) st'"
  shows "\<exists>st'. batch_loop T M p st (good @ bad # later) =
                 Thrown (err (batchNumber st + length good)) st'
       \<and> allVideoUris st' = allVideoUris st @ concat (map delivered good)
       \<and> videosGenerated st' = videosGenerated st + length (concat (map delivered good))
       \<and> batchNumber st' = batchNumber st + length good
       \<and> length (requested (trace st')) = length (requested (trace st)) + Suc (length good)"
proof -
  from batch_loop_good_prefix [OF assms(1,2)] obtain st1 where
    run: "\<forall>rest. batch_loop T M p st (good @ rest) = batch_loop T M p st1 rest" and
    av: "allVideoUris st1 = allVideoUris st @ concat (map delivered good)" and
    vg: "videosGenerated st1 = videosGenerated st + length (concat (map delivered good))" and
    bn: "batchNumber st1 = batchNumber st + length good" and
    rq: "length (requested (trace st1)) = length (requested (trace st)) + length good"
    by blast
  from assms(3) [of st1] obtain st' where
    rb: "run_batch T M p st1 bad = Abort (err (batchNumber st1)) st'" by blast
  note ab = run_batch_Abort [OF rb]
  have lt: "videosGenerated st1 < T"
    using vg assms(2) by simp
  have "batch_loop T M p st (good @ bad # later) = Thrown (err (batchNumber st + length good)) st'"
    using run lt rb bn by simp
  moreover have "allVideoUris st' = allVideoUris st @ concat (map delivered good)"
    using ab(1) av by simp
  moreover have "videosGenerated st' = videosGenerated st + length (concat (map delivered good))"
    using ab(2) vg by simp
  moreover have "batchNumber st' = batchNumber st + length good"
    using ab(3) bn by simp
  moreover have "length (requested (trace st')) =
      length (requested (trace st)) + Suc (length good)"
    using ab(4) rq by simp
  ultimately show ?thesis by blast
qed

lemma generateVideos_Thrown:
  assumes "u \<noteq> []" and "enhanced w = Inr ep"
    and "batch_loop totalVideosToGenerate maxVideosPerRequest ep
           (batch_init [GenerateContent u]) (jobs w) = Thrown e st'"
  shows "generateVideos w pg u =
         Returned \<lparr>resultsSection = [], statusMessage = ''An error occurred: '' @ message_of e,
                   generateButtonDisabled = False, statusSectionDisplay = ''none''\<rparr>
                  (trace st' @ [ConsoleError ''Video generation failed:'' e])"
  using assms
  by (cases pg) (simp add: generateVideos_def report_failure_def setLoading_def Let_def)

subsection \<open>The delivery\<close>

lemma displayAndDownloadVideo_effect:
  "displayAndDownloadVideo r i (pg, tr) =
   (pg\<lparr>resultsSection := resultsSection pg @ [shown r i]\<rparr>, tr @ [logged r i])"
  by (cases r) (simp_all add: displayAndDownloadVideo_def shown_def logged_def Let_def)

lemma fold_displayAndDownloadVideo:
  "fold (\<lambda>i. displayAndDownloadVideo (f i) i) is (pg, tr) =
   (pg\<lparr>resultsSection := resultsSection pg @ map (\<lambda>i. shown (f i) i) is\<rparr>,
    tr @ map (\<lambda>i. logged (f i) i) is)"
proof (induction "is" arbitrary: pg tr)
  case Nil
  show ?case by simp
next
  case (Cons i "is")
  show ?case
    by (simp add: displayAndDownloadVideo_effect Cons.IH)
qed

lemma deliver_all_effect:
  "deliver_all w uris (pg, tr) =
   (pg\<lparr>resultsSection := resultsSection pg
          @ map (\<lambda>i. shown (fetches w i) i) (arrival w (length uris))\<rparr>,
    tr @ map (fetch_call (api_key w)) uris
       @ map (\<lambda>i. logged (fetches w i) i) (arrival w (length uris)))"
  by (simp add: deliver_all_def fold_displayAndDownloadVideo)

lemma set_arrival: "set (arrival w n) = {1..n}"
  by (auto simp: arrival_def)

lemma length_arrival: "length (arrival w n) = n"
  by (simp add: arrival_def)

lemma generateVideos_Finished:
  assumes "u \<noteq> []" and "enhanced w = Inr ep"
    and "batch_loop totalVideosToGenerate maxVideosPerRequest ep
           (batch_init [GenerateContent u]) (jobs w) = Finished st"
  shows "generateVideos w pg u =
         Returned \<lparr>resultsSection =
                     map (\<lambda>i. shown (fetches w i) i) (arrival w (length (allVideoUris st))),
                   statusMessage = ''Finalizing all videos and preparing for download...'',
                   generateButtonDisabled = False, statusSectionDisplay = ''none''\<rparr>
                  (trace st @ map (fetch_call (api_key w)) (allVideoUris st)
                     @ map (\<lambda>i. logged (fetches w i) i) (arrival w (length (allVideoUris st))))"
  using assms
  by (cases pg) (simp add: generateVideos_def deliver_all_effect setLoading_def Let_def)

section \<open>The claims\<close>

subsection \<open>Backoff and reset\<close>

text \<open>
  C4, as the code has it. Let a poll loop start on an operation that is not done, and
  let its first \<open>N\<close> polls each fail with a rate-limit error, where \<open>N\<close> is at most
  \<open>maxPollRetries = 5\<close>. Then the waits observed are \<open>min 60000 (20000 * 2 ^ k)\<close>
  for \<open>k = 0, 1, ...\<close> (wait \<open>0\<close> precedes the first poll, wait \<open>k\<close> the \<open>k\<close>-th
  retry), the attempt count after the \<open>N\<close> failures is \<open>N\<close>, and right after a
  successful poll that follows them the attempt count is \<open>0\<close> and the delay is
  \<open>20000\<close> again, whether or not the new operation is done.
\<close>

theorem backoff_doubles_then_resets:
  assumes "\<not> op_done op"
    and "\<forall>x\<in>set es. isRateLimitError x"
    and "length es \<le> maxPollRetries"
  shows "poll_loop (poll_init op) (map Inl es) =
           Awaiting \<lparr>operation = op, pollRetries = length es,
                     pollDelay = min 60000 (20000 * 2 ^ length es),
                     plog = concat (map (\<lambda>k. [Sleep (min 60000 (20000 * 2 ^ k)), Poll])
                                        [0..<length es])\<rparr>
       \<and> poll_loop (poll_init op) (map Inl es @ [Inr op']) =
           (if op_done op' then Completed else Awaiting)
             \<lparr>operation = op', pollRetries = 0, pollDelay = 20000,
              plog = concat (map (\<lambda>k. [Sleep (min 60000 (20000 * 2 ^ k)), Poll])
                                 [0..<Suc (length es)])\<rparr>"
proof -
  let ?s = "poll_init op"
  have pre: "\<not> op_done (operation ?s)" "pollRetries ?s + length es \<le> maxPollRetries"
    using assms by (simp_all add: poll_init_def)
  note run = rate_limited_polls [OF pre(1) assms(2) pre(2)]
  have a: "poll_loop ?s (map Inl es) =
           Awaiting \<lparr>operation = op, pollRetries = length es,
                     pollDelay = min 60000 (20000 * 2 ^ length es),
                     plog = concat (map (\<lambda>k. [Sleep (min 60000 (20000 * 2 ^ k)), Poll])
                                        [0..<length es])\<rparr>"
    using run [of "[]"] assms(1)
    by (simp add: poll_init_def backoff_base backoff_log_base)
  have b: "poll_loop ?s (map Inl es @ [Inr op']) =
           (if op_done op' then Completed else Awaiting)
             \<lparr>operation = op', pollRetries = 0, pollDelay = 20000,
              plog = backoff_log 20000 (Suc (length es))\<rparr>"
    unfolding run [of "[Inr op']"] backoff_log_Suc
    using assms(1) by (simp add: poll_init_def poll_step_success)
  show ?thesis
    using a b unfolding backoff_log_base by (rule conjI)
qed

theorem backoff_doubles_then_resets_witness:
  "\<not> op_done \<lparr>op_done = False, generatedVideos = None\<rparr>
   \<and> isRateLimitError (JsError ''429 Too Many Requests'')
   \<and> isRateLimitError (JsError ''RESOURCE_EXHAUSTED'')
   \<and> isRateLimitError (JsError ''HTTP 429'')
   \<and> length [JsError ''429 Too Many Requests'', JsError ''RESOURCE_EXHAUSTED'',
              JsError ''HTTP 429''] \<le> maxPollRetries
   \<and> poll_loop (poll_init \<lparr>op_done = False, generatedVideos = None\<rparr>)
        [Inl (JsError ''429 Too Many Requests''), Inl (JsError ''RESOURCE_EXHAUSTED''),
         Inl (JsError ''HTTP 429''),
         Inr \<lparr>op_done = True, generatedVideos = Some [Some ''u1'', Some ''u2'']\<rparr>] =
       Completed \<lparr>operation = \<lparr>op_done = True, generatedVideos = Some [Some ''u1'', Some ''u2'']\<rparr>,
                  pollRetries = 0, pollDelay = 20000,
                  plog = [Sleep 20000, Poll, Sleep 40000, Poll, Sleep 60000, Poll,
                          Sleep 60000, Poll]\<rparr>"
proof -
  have h1: "\<not> op_done \<lparr>op_done = False, generatedVideos = None\<rparr>"
    by simp
  have h2: "\<forall>x\<in>set [JsError ''429 Too Many Requests'', JsError ''RESOURCE_EXHAUSTED'',
                JsError ''HTTP 429'']. isRateLimitError x"
    by simp
  have h3: "length [JsError ''429 Too Many Requests'', JsError ''RESOURCE_EXHAUSTED'',
              JsError ''HTTP 429''] \<le> maxPollRetries"
    by (simp add: maxPollRetries_def)
  have u: "[0..<Suc (Suc (Suc (Suc 0)))] = [0, 1, 2, 3]"
    by (simp add: upt_rec)
  show ?thesis
    using h1 h2 h3
      backoff_doubles_then_resets [OF h1 h2 h3,
        of "\<lparr>op_done = True, generatedVideos = Some [Some ''u1'', Some ''u2'']\<rparr>"]
    by (simp add: u)
qed

text \<open>
  C4 as stated ranges over every \<open>N\<close>. With \<open>N = 6\<close> the sixth failure finds the
  budget used up (line 87) and the loop throws: the successful poll that the script
  holds next is never made, and the attempt count stays at \<open>5\<close>.
\<close>

theorem seventh_poll_is_never_made:
  "poll_loop (poll_init \<lparr>op_done = False, generatedVideos = None\<rparr>)
     [Inl (JsError ''429''), Inl (JsError ''429''), Inl (JsError ''429''),
      Inl (JsError ''429''), Inl (JsError ''429''), Inl (JsError ''429''),
      Inr \<lparr>op_done = True, generatedVideos = Some [Some ''u1'']\<rparr>] =
   PollThrown (JsError ''Polling failed after 5 retries: 429'')
     \<lparr>operation = \<lparr>op_done = False, generatedVideos = None\<rparr>,
      pollRetries = 5, pollDelay = 60000,
      plog = [Sleep 20000, Poll, Sleep 40000, Poll, Sleep 60000, Poll,
              Sleep 60000, Poll, Sleep 60000, Poll, Sleep 60000, Poll]\<rparr>"
  by (simp add: poll_init_def poll_step_def maxPollRetries_def show_nat.simps)

subsection \<open>The retry budget\<close>

text \<open>
  C5. While fewer than \<open>maxPollRetries = 5\<close> retries have been made, a rate-limit
  failure of a poll adds one to the attempt count, backs the delay off and polls again:
  the operation is the one it was. From an attempt count of \<open>0\<close> (the start of the
  loop, or any successful poll), six rate-limit failures in a row end the loop with an
  error on the sixth: six polls have been made, the first and five retries, and whatever
  the script holds next is not polled for.
\<close>

theorem retry_budget_is_five:
  "(isRateLimitError e \<and> pollRetries t < maxPollRetries \<longrightarrow>
      poll_step t (Inl e) =
        Continue (t\<lparr>plog := plog t @ [Sleep (pollDelay t), Poll],
                    pollRetries := pollRetries t + 1,
                    pollDelay := min 60000 (pollDelay t * 2)\<rparr>))
   \<and> (\<not> op_done (operation s) \<and> pollRetries s = 0 \<and> length es = 6
        \<and> (\<forall>x\<in>set es. isRateLimitError x) \<longrightarrow>
      (\<exists>s'. poll_loop s (map Inl es @ rest) =
              PollThrown (JsError (''Polling failed after 5 retries: '' @ message_of (last es))) s'
            \<and> operation s' = operation s \<and> pollRetries s' = 5
            \<and> poll_count (plog s') = poll_count (plog s) + 6))"
proof (intro conjI impI)
  assume "isRateLimitError e \<and> pollRetries t < maxPollRetries"
  then show "poll_step t (Inl e) =
        Continue (t\<lparr>plog := plog t @ [Sleep (pollDelay t), Poll],
                    pollRetries := pollRetries t + 1,
                    pollDelay := min 60000 (pollDelay t * 2)\<rparr>)"
    by (simp add: poll_step_rate_limit)
next
  assume "\<not> op_done (operation s) \<and> pollRetries s = 0 \<and> length es = 6
        \<and> (\<forall>x\<in>set es. isRateLimitError x)"
  then show "\<exists>s'. poll_loop s (map Inl es @ rest) =
              PollThrown (JsError (''Polling failed after 5 retries: '' @ message_of (last es))) s'
            \<and> operation s' = operation s \<and> pollRetries s' = 5
            \<and> poll_count (plog s') = poll_count (plog s) + 6"
    by (intro six_rate_limits_throw) simp_all
qed

theorem retry_budget_is_five_witness:
  "isRateLimitError (JsError ''429'')
   \<and> pollRetries \<lparr>operation = \<lparr>op_done = False, generatedVideos = None\<rparr>,
                   pollRetries = 4, pollDelay = 60000, plog = []\<rparr> < maxPollRetries
   \<and> poll_step \<lparr>operation = \<lparr>op_done = False, generatedVideos = None\<rparr>,
                 pollRetries = 4, pollDelay = 60000, plog = []\<rparr> (Inl (JsError ''429'')) =
       Continue \<lparr>operation = \<lparr>op_done = False, generatedVideos = None\<rparr>,
                 pollRetries = 5, pollDelay = 60000, plog = [Sleep 60000, Poll]\<rparr>
   \<and> \<not> op_done (operation (poll_init \<lparr>op_done = False, generatedVideos = None\<rparr>))
   \<and> pollRetries (poll_init \<lparr>op_done = False, generatedVideos = None\<rparr>) = 0
   \<and> length [JsError ''429'', JsError ''429'', JsError ''429'', JsError ''429'',
              JsError ''429'', JsError ''RESOURCE_EXHAUSTED: quota''] = 6
   \<and> isRateLimitError (JsError ''RESOURCE_EXHAUSTED: quota'')
   \<and> poll_loop (poll_init \<lparr>op_done = False, generatedVideos = None\<rparr>)
        (map Inl [JsError ''429'', JsError ''429'', JsError ''429'', JsError ''429'',
                  JsError ''429'', JsError ''RESOURCE_EXHAUSTED: quota'']
         @ [Inl (JsError ''429''), Inr \<lparr>op_done = True, generatedVideos = Some [Some ''u1'']\<rparr>]) =
       PollThrown (JsError ''Polling failed after 5 retries: RESOURCE_EXHAUSTED: quota'')
         \<lparr>operation = \<lparr>op_done = False, generatedVideos = None\<rparr>,
          pollRetries = 5, pollDelay = 60000,
          plog = [Sleep 20000, Poll, Sleep 40000, Poll, Sleep 60000, Poll,
                  Sleep 60000, Poll, Sleep 60000, Poll, Sleep 60000, Poll]\<rparr>
   \<and> poll_count [Sleep 20000, Poll, Sleep 40000, Poll, Sleep 60000, Poll,
                  Sleep 60000, Poll, Sleep 60000, Poll, Sleep 60000, Poll] = 6"
  using retry_budget_is_five
    [of "JsError ''429''"
        "\<lparr>operation = \<lparr>op_done = False, generatedVideos = None\<rparr>,
          pollRetries = 4, pollDelay = 60000, plog = []\<rparr>"
        "poll_init \<lparr>op_done = False, generatedVideos = None\<rparr>"
        "[JsError ''429'', JsError ''429'', JsError ''429'', JsError ''429'',
          JsError ''429'', JsError ''RESOURCE_EXHAUSTED: quota'']"
        "[Inl (JsError ''429''), Inr \<lparr>op_done = True, generatedVideos = Some [Some ''u1'']\<rparr>]"]
  by (simp add: poll_init_def poll_step_def maxPollRetries_def show_nat.simps poll_count_def)

subsection \<open>Failures that are not retried\<close>

text \<open>
  C6. At any point of a poll loop whose operation is not done, a poll failure that is not
  classified as a rate limit (anything but an \<^verbatim>\<open>Error\<close> whose message contains
  \<^verbatim>\<open>429\<close> or \<^verbatim>\<open>RESOURCE_EXHAUSTED\<close>) ends the loop with an error at once, whatever
  the number of retries used so far and whatever the script holds next.
\<close>

theorem fatal_poll_failure_ends_loop:
  assumes "\<not> op_done (operation s)" and "\<not> isRateLimitError e"
  shows "poll_loop s (Inl e # rest) =
         PollThrown (JsError (''Polling failed after '' @ show_nat (pollRetries s)
                                @ '' retries: '' @ message_of e))
                    (s\<lparr>plog := plog s @ [Sleep (pollDelay s), Poll]\<rparr>)"
  using assms by (simp add: poll_step_fatal)

theorem fatal_poll_failure_ends_loop_witness:
  "\<not> op_done (operation \<lparr>operation = \<lparr>op_done = False, generatedVideos = None\<rparr>,
                          pollRetries = 2, pollDelay = 60000, plog = []\<rparr>)
   \<and> \<not> isRateLimitError (JsError ''500 Internal error'')
   \<and> poll_loop \<lparr>operation = \<lparr>op_done = False, generatedVideos = None\<rparr>,
                 pollRetries = 2, pollDelay = 60000, plog = []\<rparr>
        [Inl (JsError ''500 Internal error''),
         Inr \<lparr>op_done = True, generatedVideos = Some [Some ''u1'']\<rparr>] =
       PollThrown (JsError ''Polling failed after 2 retries: 500 Internal error'')
         \<lparr>operation = \<lparr>op_done = False, generatedVideos = None\<rparr>,
          pollRetries = 2, pollDelay = 60000, plog = [Sleep 60000, Poll]\<rparr>"
proof -
  have h1: "\<not> op_done (operation \<lparr>operation = \<lparr>op_done = False, generatedVideos = None\<rparr>,
                          pollRetries = 2, pollDelay = 60000, plog = []\<rparr>)"
    by simp
  have h2: "\<not> isRateLimitError (JsError ''500 Internal error'')"
    by simp
  show ?thesis
    using h1 h2 fatal_poll_failure_ends_loop [OF h1 h2,
      of "[Inr \<lparr>op_done = True, generatedVideos = Some [Some ''u1'']\<rparr>]"]
    by (simp add: show_nat.simps)
qed

subsection \<open>The empty prompt\<close>

text \<open>
  C10. On the empty prompt \<^verbatim>\<open>generateVideos\<close> alerts the user and returns: the alert
  is the only call made (no enhancement, no submission, no poll), and the page, with its
  results area, is as it was.
\<close>

theorem empty_prompt_only_alerts:
  "generateVideos w pg [] = Returned pg [Alert ''Please enter a video description.'']"
  by (simp add: generateVideos_def)

subsection \<open>A batch that ends without videos\<close>

text \<open>
  C1, as the code has it. When the poll loop of a batch ends on a response whose list of
  generated videos is absent or empty, the batch fails: the run throws an error that
  names the number of the batch, and the accumulated results, the count of videos and
  the batch number are what they were before the batch.
\<close>

theorem empty_response_fails_batch:
  assumes "videosGenerated st < totalCount"
    and "terminal j = Some op"
    and "generatedVideos op = None \<or> generatedVideos op = Some []"
  shows "\<exists>st'. batch_loop totalCount maxPerBatch prompt st (j # js) =
               Thrown (JsError (''Video generation batch '' @ show_nat (batchNumber st)
                                  @ '' failed to produce any videos.'')) st'
             \<and> allVideoUris st' = allVideoUris st
             \<and> videosGenerated st' = videosGenerated st
             \<and> batchNumber st' = batchNumber st"
proof -
  from run_batch_no_videos [OF assms(2,3)] obtain st' where
    rb: "run_batch totalCount maxPerBatch prompt st j = Abort (no_videos_error (batchNumber st)) st'"
    by blast
  have "batch_loop totalCount maxPerBatch prompt st (j # js) =
        Thrown (no_videos_error (batchNumber st)) st'"
    using assms(1) rb by simp
  with run_batch_Abort [OF rb] show ?thesis
    by (auto simp: no_videos_error_def)
qed

theorem empty_response_fails_batch_witness:
  "videosGenerated (batch_init []) < 5
   \<and> terminal \<lparr>submitted = Inr \<lparr>op_done = False, generatedVideos = None\<rparr>,
                polls = [Inr \<lparr>op_done = True, generatedVideos = Some []\<rparr>]\<rparr> =
       Some \<lparr>op_done = True, generatedVideos = Some []\<rparr>
   \<and> generatedVideos \<lparr>op_done = True, generatedVideos = Some []\<rparr> = Some []
   \<and> batch_loop 5 2 ''p'' (batch_init [])
        [\<lparr>submitted = Inr \<lparr>op_done = False, generatedVideos = None\<rparr>,
          polls = [Inr \<lparr>op_done = True, generatedVideos = Some []\<rparr>]\<rparr>,
         \<lparr>submitted = Inr \<lparr>op_done = True, generatedVideos = Some [Some ''u1'', Some ''u2'']\<rparr>,
          polls = []\<rparr>] =
       Thrown (JsError ''Video generation batch 1 failed to produce any videos.'')
         \<lparr>allVideoUris = [], videosGenerated = 0, batchNumber = 1,
          trace = [Submit ''p'' 2, Sleep 20000, Poll]\<rparr>"
proof -
  have h1: "videosGenerated (batch_init []) < 5"
    by (simp add: batch_init_def)
  have h2: "terminal \<lparr>submitted = Inr \<lparr>op_done = False, generatedVideos = None\<rparr>,
                polls = [Inr \<lparr>op_done = True, generatedVideos = Some []\<rparr>]\<rparr> =
       Some \<lparr>op_done = True, generatedVideos = Some []\<rparr>"
    by (simp add: terminal_def poll_init_def poll_step_def)
  have h3: "generatedVideos \<lparr>op_done = True, generatedVideos = Some []\<rparr> = None
          \<or> generatedVideos \<lparr>op_done = True, generatedVideos = Some []\<rparr> = Some []"
    by simp
  show ?thesis
    using h1 h2 empty_response_fails_batch [OF h1 h2 h3, of 2 "''p''"
        "[\<lparr>submitted = Inr \<lparr>op_done = True, generatedVideos = Some [Some ''u1'', Some ''u2'']\<rparr>,
           polls = []\<rparr>]"]
    by (simp add: run_batch_def poll_init_def poll_step_def batch_init_def
                  videosInThisBatch_def no_videos_error_def show_nat.simps)
qed

text \<open>
  C1 as stated counts the usable uris. The check of line 102 counts the entries of the
  list instead: a response that is done and holds entries, none of which has a usable
  uri, is not an error. The batch adds nothing, and the run goes on to further batches
  and finishes.
\<close>

theorem response_without_uris_is_accepted:
  "batch_loop 5 2 ''p'' (batch_init [])
     [\<lparr>submitted = Inr \<lparr>op_done = False, generatedVideos = None\<rparr>,
       polls = [Inr \<lparr>op_done = True, generatedVideos = Some [None, Some []]\<rparr>]\<rparr>,
      \<lparr>submitted = Inr \<lparr>op_done = True, generatedVideos = Some [Some ''u1'', Some ''u2'']\<rparr>,
       polls = []\<rparr>,
      \<lparr>submitted = Inr \<lparr>op_done = True, generatedVideos = Some [Some ''u3'', Some ''u4'']\<rparr>,
       polls = []\<rparr>,
      \<lparr>submitted = Inr \<lparr>op_done = True, generatedVideos = Some [Some ''u5'']\<rparr>,
       polls = []\<rparr>] =
   Finished \<lparr>allVideoUris = [''u1'', ''u2'', ''u3'', ''u4'', ''u5''], videosGenerated = 5,
             batchNumber = 5,
             trace = [Submit ''p'' 2, Sleep 20000, Poll, Submit ''p'' 2, Submit ''p'' 2,
                      Submit ''p'' 1]\<rparr>
   \<and> delivered \<lparr>submitted = Inr \<lparr>op_done = False, generatedVideos = None\<rparr>,
                 polls = [Inr \<lparr>op_done = True, generatedVideos = Some [None, Some []]\<rparr>]\<rparr> = []"
  by (simp add: run_batch_def poll_init_def poll_step_def batch_init_def
                videosInThisBatch_def terminal_def delivered_def)

subsection \<open>What the batches deliver\<close>

text \<open>
  C2, as the code has it. In every run that finishes, each batch issued ended on a
  response with at least one generated video, and the accumulated results are exactly
  the usable uris of those responses, batch after batch: a batch adds never more than
  its response holds, so more than was requested only if the remote service returned
  more. The count of videos is the number of accumulated results, and it is at least
  \<open>totalCount\<close>. Nothing is said about a batch that contributes fewer uris than
  it requested: the loop counts what arrived and goes on until the count is reached.
\<close>

theorem batches_cover_the_total:
  assumes "batch_loop T M p (batch_init tr) js = Finished st'"
  shows "batchNumber st' - 1 \<le> length js
       \<and> length (requested (trace st')) = length (requested tr) + (batchNumber st' - 1)
       \<and> (\<forall>j\<in>set (take (batchNumber st' - 1) js).
            \<exists>op vs. terminal j = Some op \<and> generatedVideos op = Some vs \<and> vs \<noteq> []
                   \<and> delivered j = batchVideoUris vs \<and> length (delivered j) \<le> length vs)
       \<and> allVideoUris st' = concat (map delivered (take (batchNumber st' - 1) js))
       \<and> videosGenerated st' = length (allVideoUris st')
       \<and> length (allVideoUris st') =
           sum_list (map (\<lambda>j. length (delivered j)) (take (batchNumber st' - 1) js))
       \<and> T \<le> length (allVideoUris st')"
proof -
  note f = finished_from_init [OF assms]
  have a: "length (requested (trace st')) = length (requested tr) + (batchNumber st' - 1)"
    unfolding f(4) by simp
  have b: "\<forall>j\<in>set (take (batchNumber st' - 1) js).
            \<exists>op vs. terminal j = Some op \<and> generatedVideos op = Some vs \<and> vs \<noteq> []
                   \<and> delivered j = batchVideoUris vs \<and> length (delivered j) \<le> length vs"
  proof
    fix j
    assume "j \<in> set (take (batchNumber st' - 1) js)"
    with f(5) have "has_videos j" by simp
    from has_videosD [OF this] obtain op vs where
      h: "terminal j = Some op" "generatedVideos op = Some vs" "vs \<noteq> []"
         "delivered j = batchVideoUris vs"
      by blast
    moreover have "length (delivered j) \<le> length vs"
      unfolding h(4) by (rule length_batchVideoUris)
    ultimately show "\<exists>op vs. terminal j = Some op \<and> generatedVideos op = Some vs \<and> vs \<noteq> []
                   \<and> delivered j = batchVideoUris vs \<and> length (delivered j) \<le> length vs"
      by blast
  qed
  have c: "videosGenerated st' = length (allVideoUris st')"
    unfolding f(3) f(2) by (rule refl)
  have d: "length (allVideoUris st') =
           sum_list (map (\<lambda>j. length (delivered j)) (take (batchNumber st' - 1) js))"
    unfolding f(2) by (simp add: length_concat comp_def)
  have e: "T \<le> length (allVideoUris st')"
    using f(7) unfolding c .
  show ?thesis
    using f(1) a b f(2) c d e by blast
qed

theorem batches_cover_the_total_witness:
  "batch_loop 5 2 ''p'' (batch_init [])
     [polled_once [Some ''u1'', Some ''u2''], polled_once [Some ''u3'', None],
      polled_once [Some ''u4'', Some ''u5'']] =
   Finished \<lparr>allVideoUris = [''u1'', ''u2'', ''u3'', ''u4'', ''u5''], videosGenerated = 5,
             batchNumber = 4,
             trace = [Submit ''p'' 2, Sleep 20000, Poll, Submit ''p'' 2, Sleep 20000, Poll,
                      Submit ''p'' 2, Sleep 20000, Poll]\<rparr>
   \<and> delivered (polled_once [Some ''u3'', None]) = [''u3'']
   \<and> [''u1'', ''u2'', ''u3'', ''u4'', ''u5''] =
       delivered (polled_once [Some ''u1'', Some ''u2''])
       @ delivered (polled_once [Some ''u3'', None])
       @ delivered (polled_once [Some ''u4'', Some ''u5''])
   \<and> (5::nat) \<le> length [''u1'', ''u2'', ''u3'', ''u4'', ''u5'']"
proof -
  have h: "batch_loop 5 2 ''p'' (batch_init [])
     [polled_once [Some ''u1'', Some ''u2''], polled_once [Some ''u3'', None],
      polled_once [Some ''u4'', Some ''u5'']] =
   Finished \<lparr>allVideoUris = [''u1'', ''u2'', ''u3'', ''u4'', ''u5''], videosGenerated = 5,
             batchNumber = 4,
             trace = [Submit ''p'' 2, Sleep 20000, Poll, Submit ''p'' 2, Sleep 20000, Poll,
                      Submit ''p'' 2, Sleep 20000, Poll]\<rparr>"
    by (simp add: run_simps)
  have d: "delivered (polled_once [Some ''u3'', None]) = [''u3'']"
    by (simp add: run_simps)
  from batches_cover_the_total [OF h]
  have a: "allVideoUris \<lparr>allVideoUris = [''u1'', ''u2'', ''u3'', ''u4'', ''u5''],
            videosGenerated = 5, batchNumber = 4,
            trace = [Submit ''p'' 2, Sleep 20000, Poll, Submit ''p'' 2, Sleep 20000, Poll,
                     Submit ''p'' 2, Sleep 20000, Poll]\<rparr> =
        concat (map delivered
          (take (batchNumber \<lparr>allVideoUris = [''u1'', ''u2'', ''u3'', ''u4'', ''u5''],
                   videosGenerated = 5, batchNumber = 4,
                   trace = [Submit ''p'' 2, Sleep 20000, Poll, Submit ''p'' 2, Sleep 20000, Poll,
                            Submit ''p'' 2, Sleep 20000, Poll]\<rparr> - 1)
             [polled_once [Some ''u1'', Some ''u2''], polled_once [Some ''u3'', None],
              polled_once [Some ''u4'', Some ''u5'']]))"
    and b: "5 \<le> length (allVideoUris \<lparr>allVideoUris = [''u1'', ''u2'', ''u3'', ''u4'', ''u5''],
            videosGenerated = 5, batchNumber = 4,
            trace = [Submit ''p'' 2, Sleep 20000, Poll, Submit ''p'' 2, Sleep 20000, Poll,
                     Submit ''p'' 2, Sleep 20000, Poll]\<rparr>)"
    by blast+
  from a have a': "[''u1'', ''u2'', ''u3'', ''u4'', ''u5''] =
       delivered (polled_once [Some ''u1'', Some ''u2''])
       @ delivered (polled_once [Some ''u3'', None])
       @ delivered (polled_once [Some ''u4'', Some ''u5''])"
    by simp
  from b have b': "(5::nat) \<le> length [''u1'', ''u2'', ''u3'', ''u4'', ''u5'']"
    by simp
  from h d a' b' show ?thesis
    by (intro conjI)
qed

text \<open>
  C2 as stated has every batch of a finished run deliver at least what it requested.
  Here each batch delivers one uri; the first four requested two. The run does not
  abort: it issues five batches and finishes.
\<close>

theorem short_batch_does_not_abort:
  "batch_loop 5 2 ''p'' (batch_init [])
     [polled_once [Some ''u1''], polled_once [Some ''u2''], polled_once [Some ''u3''],
      polled_once [Some ''u4''], polled_once [Some ''u5'']] =
   Finished \<lparr>allVideoUris = [''u1'', ''u2'', ''u3'', ''u4'', ''u5''], videosGenerated = 5,
             batchNumber = 6,
             trace = [Submit ''p'' 2, Sleep 20000, Poll, Submit ''p'' 2, Sleep 20000, Poll,
                      Submit ''p'' 2, Sleep 20000, Poll, Submit ''p'' 2, Sleep 20000, Poll,
                      Submit ''p'' 1, Sleep 20000, Poll]\<rparr>
   \<and> length (delivered (polled_once [Some ''u1''])) < 2"
  by (simp add: run_simps)

subsection \<open>What the batches request\<close>

text \<open>
  C3, as the code has it. For every \<open>totalCount\<close> and every \<open>maxPerBatch > 0\<close>, in
  every run that finishes, batch \<open>i\<close> requests
  \<open>min maxPerBatch (totalCount - produced)\<close>, where \<open>produced\<close> is the number of uris
  that the batches before it delivered: at least one, at most \<open>maxPerBatch\<close>, and at
  most what is still needed. When every batch delivers exactly as many uris as it
  requested, the requested counts sum to \<open>totalCount\<close>.
\<close>

theorem requested_counts_sum_to_total:
  assumes "0 < maxPerBatch"
    and "requested tr = []"
    and "batch_loop totalCount maxPerBatch p (batch_init tr) js = Finished st'"
  shows "requested (trace st') =
           map (\<lambda>i. min maxPerBatch (totalCount - length (concat (map delivered (take i js)))))
               [0..<batchNumber st' - 1]
       \<and> (\<forall>n\<in>set (requested (trace st')). 0 < n \<and> n \<le> maxPerBatch)
       \<and> (\<forall>i<batchNumber st' - 1.
            requested (trace st') ! i \<le> totalCount - length (concat (map delivered (take i js))))
       \<and> (map (\<lambda>j. length (delivered j)) (take (batchNumber st' - 1) js) = requested (trace st')
            \<longrightarrow> sum_list (requested (trace st')) = totalCount)"
proof -
  note f = finished_from_init [OF assms(3)]
  let ?k = "batchNumber st' - 1"
  let ?produced = "\<lambda>i. length (concat (map delivered (take i js)))"
  have rq: "requested (trace st') = map (\<lambda>i. min maxPerBatch (totalCount - ?produced i)) [0..<?k]"
    using f(4) assms(2) by simp
  have nth: "requested (trace st') ! i = min maxPerBatch (totalCount - ?produced i)" if "i < ?k" for i
    using that unfolding rq by simp
  have bounds: "\<forall>n\<in>set (requested (trace st')). 0 < n \<and> n \<le> maxPerBatch"
    unfolding rq using f(6) assms(1) by auto
  have need: "\<forall>i<?k. requested (trace st') ! i \<le> totalCount - ?produced i"
    using nth by simp
  have exact: "sum_list (requested (trace st')) = totalCount"
    if eq: "map (\<lambda>j. length (delivered j)) (take ?k js) = requested (trace st')"
  proof -
    have total: "sum_list (requested (trace st')) = ?produced ?k"
      unfolding eq [symmetric] by (simp add: length_concat comp_def)
    have ge: "totalCount \<le> ?produced ?k"
      using f(7) f(3) by simp
    have le: "?produced ?k \<le> totalCount"
    proof (cases ?k)
      case 0
      then show ?thesis by simp
    next
      case (Suc k')
      then have lt: "k' < ?k" by simp
      with f(1) have inb: "k' < length js" by simp
      have step: "?produced (Suc k') = ?produced k' + length (delivered (js ! k'))"
        using inb by (simp add: take_Suc_conv_app_nth)
      have "length (delivered (js ! k')) = map (\<lambda>j. length (delivered j)) (take ?k js) ! k'"
        using lt inb by simp
      also have "\<dots> = requested (trace st') ! k'"
        by (simp only: eq)
      also have "\<dots> \<le> totalCount - ?produced k'"
        using need lt by blast
      finally have "length (delivered (js ! k')) \<le> totalCount - ?produced k'" .
      moreover have "?produced k' < totalCount"
        using f(6) lt by blast
      ultimately have "?produced (Suc k') \<le> totalCount"
        unfolding step by simp
      then show ?thesis
        by (simp only: Suc)
    qed
    show ?thesis
      using total ge le by simp
  qed
  show ?thesis
    using rq bounds need exact by blast
qed

theorem requested_counts_sum_to_total_witness:
  "0 < (2::nat)
   \<and> requested [GenerateContent ''a cat''] = []
   \<and> batch_loop 5 2 ''p'' (batch_init [GenerateContent ''a cat''])
        [polled_once [Some ''u1'', Some ''u2''], polled_once [Some ''u3'', Some ''u4''],
         polled_once [Some ''u5'']] =
      Finished \<lparr>allVideoUris = [''u1'', ''u2'', ''u3'', ''u4'', ''u5''], videosGenerated = 5,
                batchNumber = 4,
                trace = [GenerateContent ''a cat'', Submit ''p'' 2, Sleep 20000, Poll,
                         Submit ''p'' 2, Sleep 20000, Poll, Submit ''p'' 1, Sleep 20000, Poll]\<rparr>
   \<and> map (\<lambda>j. length (delivered j))
        [polled_once [Some ''u1'', Some ''u2''], polled_once [Some ''u3'', Some ''u4''],
         polled_once [Some ''u5'']] = [2, 2, 1]
   \<and> requested [GenerateContent ''a cat'', Submit ''p'' 2, Sleep 20000, Poll,
                 Submit ''p'' 2, Sleep 20000, Poll, Submit ''p'' 1, Sleep 20000, Poll] = [2, 2, 1]
   \<and> sum_list [2, 2, 1] = (5::nat)"
proof -
  have h1: "0 < (2::nat)" by simp
  have h2: "requested [GenerateContent ''a cat''] = []"
    by (simp add: requested_simps)
  have h3: "batch_loop 5 2 ''p'' (batch_init [GenerateContent ''a cat''])
        [polled_once [Some ''u1'', Some ''u2''], polled_once [Some ''u3'', Some ''u4''],
         polled_once [Some ''u5'']] =
      Finished \<lparr>allVideoUris = [''u1'', ''u2'', ''u3'', ''u4'', ''u5''], videosGenerated = 5,
                batchNumber = 4,
                trace = [GenerateContent ''a cat'', Submit ''p'' 2, Sleep 20000, Poll,
                         Submit ''p'' 2, Sleep 20000, Poll, Submit ''p'' 1, Sleep 20000, Poll]\<rparr>"
    by (simp add: run_simps)
  have d: "map (\<lambda>j. length (delivered j))
        [polled_once [Some ''u1'', Some ''u2''], polled_once [Some ''u3'', Some ''u4''],
         polled_once [Some ''u5'']] = [2, 2, 1]"
    by (simp add: run_simps)
  have r: "requested [GenerateContent ''a cat'', Submit ''p'' 2, Sleep 20000, Poll,
                 Submit ''p'' 2, Sleep 20000, Poll, Submit ''p'' 1, Sleep 20000, Poll] = [2, 2, 1]"
    by (simp add: requested_simps)
  have exact: "map (\<lambda>j. length (delivered j))
      (take (batchNumber \<lparr>allVideoUris = [''u1'', ''u2'', ''u3'', ''u4'', ''u5''],
               videosGenerated = 5, batchNumber = 4,
               trace = [GenerateContent ''a cat'', Submit ''p'' 2, Sleep 20000, Poll,
                        Submit ''p'' 2, Sleep 20000, Poll, Submit ''p'' 1, Sleep 20000, Poll]\<rparr> - 1)
         [polled_once [Some ''u1'', Some ''u2''], polled_once [Some ''u3'', Some ''u4''],
          polled_once [Some ''u5'']]) =
      requested (trace \<lparr>allVideoUris = [''u1'', ''u2'', ''u3'', ''u4'', ''u5''],
               videosGenerated = 5, batchNumber = 4,
               trace = [GenerateContent ''a cat'', Submit ''p'' 2, Sleep 20000, Poll,
                        Submit ''p'' 2, Sleep 20000, Poll, Submit ''p'' 1, Sleep 20000, Poll]\<rparr>)"
    using d r by simp
  from requested_counts_sum_to_total [OF h1 h2 h3] exact
  have "sum_list (requested (trace \<lparr>allVideoUris = [''u1'', ''u2'', ''u3'', ''u4'', ''u5''],
               videosGenerated = 5, batchNumber = 4,
               trace = [GenerateContent ''a cat'', Submit ''p'' 2, Sleep 20000, Poll,
                        Submit ''p'' 2, Sleep 20000, Poll, Submit ''p'' 1, Sleep 20000, Poll]\<rparr>)) = 5"
    by blast
  then have "sum_list [2, 2, 1] = (5::nat)"
    using r by simp
  with h1 h2 h3 d r show ?thesis
    by (intro conjI)
qed

text \<open>
  C3 as stated has the requested counts sum to \<open>totalCount\<close> in every finished run.
  Here the first batch delivers one uri of the two it requested; the loop requests
  \<open>2, 2, 2\<close>, six in all, for a total of five.
\<close>

theorem short_batch_is_requested_again:
  "batch_loop 5 2 ''p'' (batch_init [])
     [polled_once [Some ''u1'', None], polled_once [Some ''u2'', Some ''u3''],
      polled_once [Some ''u4'', Some ''u5'']] =
   Finished \<lparr>allVideoUris = [''u1'', ''u2'', ''u3'', ''u4'', ''u5''], videosGenerated = 5,
             batchNumber = 4,
             trace = [Submit ''p'' 2, Sleep 20000, Poll, Submit ''p'' 2, Sleep 20000, Poll,
                      Submit ''p'' 2, Sleep 20000, Poll]\<rparr>
   \<and> sum_list (requested [Submit ''p'' 2, Sleep 20000, Poll, Submit ''p'' 2, Sleep 20000, Poll,
                           Submit ''p'' 2, Sleep 20000, Poll]) = 6"
  by (simp add: run_simps)

subsection \<open>The order of the results\<close>

text \<open>
  C8. In every run that finishes, the accumulated results hold at least \<open>totalCount\<close>
  uris, and they are the uris of the batches in the order of submission, each batch
  giving the usable uris of the response its poll loop ended on, in the order of that
  response.
\<close>

theorem results_in_submission_order:
  assumes "batch_loop T M p (batch_init tr) js = Finished st'"
  shows "T \<le> length (allVideoUris st')
       \<and> allVideoUris st' = concat (map delivered (take (batchNumber st' - 1) js))
       \<and> (\<forall>j\<in>set (take (batchNumber st' - 1) js).
            \<exists>op vs. terminal j = Some op \<and> op_done op \<and> generatedVideos op = Some vs
                   \<and> delivered j = map the (filter (\<lambda>v. v \<noteq> None \<and> v \<noteq> Some []) vs))"
proof -
  note f = finished_from_init [OF assms]
  have a: "T \<le> length (allVideoUris st')"
    using f(7) unfolding f(3) f(2) .
  have b: "\<forall>j\<in>set (take (batchNumber st' - 1) js).
            \<exists>op vs. terminal j = Some op \<and> op_done op \<and> generatedVideos op = Some vs
                   \<and> delivered j = map the (filter (\<lambda>v. v \<noteq> None \<and> v \<noteq> Some []) vs)"
  proof
    fix j
    assume "j \<in> set (take (batchNumber st' - 1) js)"
    with f(5) have "has_videos j" by simp
    from has_videosD [OF this] obtain op vs where
      h: "terminal j = Some op" "generatedVideos op = Some vs" "delivered j = batchVideoUris vs"
      by blast
    have "op_done op"
      using h(1) by (rule terminal_done)
    with h show "\<exists>op vs. terminal j = Some op \<and> op_done op \<and> generatedVideos op = Some vs
                   \<and> delivered j = map the (filter (\<lambda>v. v \<noteq> None \<and> v \<noteq> Some []) vs)"
      by (auto simp: batchVideoUris_filter)
  qed
  show ?thesis
    using a f(2) b by blast
qed

theorem results_in_submission_order_witness:
  "batch_loop 5 2 ''p'' (batch_init [])
     [polled_once [Some ''u1'', Some ''u2''],
      polled_once [None, Some ''u3'', Some [], Some ''u4'', Some ''u5''],
      polled_once [Some ''u6'']] =
   Finished \<lparr>allVideoUris = [''u1'', ''u2'', ''u3'', ''u4'', ''u5''], videosGenerated = 5,
             batchNumber = 3,
             trace = [Submit ''p'' 2, Sleep 20000, Poll, Submit ''p'' 2, Sleep 20000, Poll]\<rparr>
   \<and> 5 \<le> length [''u1'', ''u2'', ''u3'', ''u4'', ''u5'']
   \<and> [''u1'', ''u2'', ''u3'', ''u4'', ''u5''] =
       delivered (polled_once [Some ''u1'', Some ''u2''])
       @ delivered (polled_once [None, Some ''u3'', Some [], Some ''u4'', Some ''u5''])"
proof -
  have h: "batch_loop 5 2 ''p'' (batch_init [])
     [polled_once [Some ''u1'', Some ''u2''],
      polled_once [None, Some ''u3'', Some [], Some ''u4'', Some ''u5''],
      polled_once [Some ''u6'']] =
   Finished \<lparr>allVideoUris = [''u1'', ''u2'', ''u3'', ''u4'', ''u5''], videosGenerated = 5,
             batchNumber = 3,
             trace = [Submit ''p'' 2, Sleep 20000, Poll, Submit ''p'' 2, Sleep 20000, Poll]\<rparr>"
    by (simp add: run_simps)
  from results_in_submission_order [OF h]
  have a: "5 \<le> length (allVideoUris \<lparr>allVideoUris = [''u1'', ''u2'', ''u3'', ''u4'', ''u5''],
             videosGenerated = 5, batchNumber = 3,
             trace = [Submit ''p'' 2, Sleep 20000, Poll, Submit ''p'' 2, Sleep 20000, Poll]\<rparr>)"
    and b: "allVideoUris \<lparr>allVideoUris = [''u1'', ''u2'', ''u3'', ''u4'', ''u5''],
             videosGenerated = 5, batchNumber = 3,
             trace = [Submit ''p'' 2, Sleep 20000, Poll, Submit ''p'' 2, Sleep 20000, Poll]\<rparr> =
         concat (map delivered (take (batchNumber \<lparr>allVideoUris = [''u1'', ''u2'', ''u3'', ''u4'', ''u5''],
             videosGenerated = 5, batchNumber = 3,
             trace = [Submit ''p'' 2, Sleep 20000, Poll, Submit ''p'' 2, Sleep 20000, Poll]\<rparr> - 1)
           [polled_once [Some ''u1'', Some ''u2''],
            polled_once [None, Some ''u3'', Some [], Some ''u4'', Some ''u5''],
            polled_once [Some ''u6'']]))"
    by blast+
  from a have a': "5 \<le> length [''u1'', ''u2'', ''u3'', ''u4'', ''u5'']"
    by simp
  from b have b': "[''u1'', ''u2'', ''u3'', ''u4'', ''u5''] =
       delivered (polled_once [Some ''u1'', Some ''u2''])
       @ delivered (polled_once [None, Some ''u3'', Some [], Some ''u4'', Some ''u5''])"
    by simp
  from h a' b' show ?thesis
    by (intro conjI)
qed

subsection \<open>A batch that fails\<close>

text \<open>
  C7, as the code has it. Let the batches before some batch all end on a response with
  videos, without reaching the count, and let that batch fail: its submission is
  rejected, or one of its polls fails for good (not a rate limit, or the budget is used
  up), or it ends without videos. Then the run is aborted at once. The batch loop
  throws; the failing batch is the last one submitted, whatever jobs the script holds
  after it; the results accumulated at the abort are exactly the uris of the batches
  before it, in order; the handler logs the error and puts it on the status line, the
  results area stays empty and nothing is fetched. The error is the rejection itself, or
  \<^verbatim>\<open>Polling failed after N retries:\<close> with the retries made and the message of the
  failed poll, or, for a batch without videos, an error with the number of the batch.
\<close>

theorem failed_batch_aborts_run:
  assumes "u \<noteq> []" and "enhanced w = Inr ep"
    and "jobs w = good @ bad # later"
    and "\<forall>j\<in>set good. has_videos j"
    and "length (concat (map delivered good)) < totalVideosToGenerate"
    and "submitted bad = Inl e
       \<or> (submitted bad = Inr op \<and> polls bad = pre @ Inl x # rest
            \<and> poll_loop (poll_init op) pre = Awaiting s
            \<and> (maxPollRetries \<le> pollRetries s \<or> \<not> isRateLimitError x)
            \<and> e = JsError (''Polling failed after '' @ show_nat (pollRetries s)
                             @ '' retries: '' @ message_of x))
       \<or> (terminal bad = Some last_op
            \<and> (generatedVideos last_op = None \<or> generatedVideos last_op = Some [])
            \<and> e = JsError (''Video generation batch '' @ show_nat (Suc (length good))
                             @ '' failed to produce any videos.''))"
  shows "\<exists>st'. batch_loop totalVideosToGenerate maxVideosPerRequest ep
                 (batch_init [GenerateContent u]) (jobs w) = Thrown e st'
       \<and> allVideoUris st' = concat (map delivered good)
       \<and> videosGenerated st' = length (concat (map delivered good))
       \<and> batchNumber st' = Suc (length good)
       \<and> length (requested (trace st')) = Suc (length good)
       \<and> generateVideos w pg u =
           Returned \<lparr>resultsSection = [], statusMessage = ''An error occurred: '' @ message_of e,
                     generateButtonDisabled = False, statusSectionDisplay = ''none''\<rparr>
                    (trace st' @ [ConsoleError ''Video generation failed:'' e])"
proof -
  let ?T = totalVideosToGenerate and ?M = maxVideosPerRequest
  let ?st = "batch_init [GenerateContent u]"
  define err where
    "err = (\<lambda>n. if (\<exists>o'. terminal bad = Some o') then no_videos_error n else e)"
  have pre2: "videosGenerated ?st + length (concat (map delivered good)) < ?T"
    using assms(5) by (simp add: batch_init_def)
  from assms(6) consider
    (rejected) "submitted bad = Inl e"
  | (polling) "submitted bad = Inr op" "polls bad = pre @ Inl x # rest"
      "poll_loop (poll_init op) pre = Awaiting s"
      "maxPollRetries \<le> pollRetries s \<or> \<not> isRateLimitError x"
      "e = JsError (''Polling failed after '' @ show_nat (pollRetries s)
                      @ '' retries: '' @ message_of x)"
  | (empty) "terminal bad = Some last_op"
      "generatedVideos last_op = None \<or> generatedVideos last_op = Some []"
      "e = JsError (''Video generation batch '' @ show_nat (Suc (length good))
                      @ '' failed to produce any videos.'')"
    by blast
  then have cause:
    "(terminal bad = None \<and> (\<forall>T M p stk. \<exists>st'. run_batch T M p stk bad = Abort e st'))
     \<or> (terminal bad = Some last_op
          \<and> (generatedVideos last_op = None \<or> generatedVideos last_op = Some [])
          \<and> e = no_videos_error (Suc (length good)))"
  proof cases
    case rejected
    then have "terminal bad = None" by (simp add: terminal_def)
    with run_batch_rejected [OF rejected] show ?thesis by blast
  next
    case polling
    from poll_loop_fatal_poll [OF polling(3,4), of rest]
    have th: "poll_loop (poll_init op) (polls bad) =
              PollThrown e (s\<lparr>plog := plog s @ [Sleep (pollDelay s), Poll]\<rparr>)"
      by (simp add: polling(2,5))
    then have "terminal bad = None" by (simp add: terminal_def polling(1))
    with run_batch_poll_thrown [OF polling(1) th] show ?thesis by blast
  next
    case empty
    then show ?thesis by (simp add: no_videos_error_def)
  qed
  have fails: "\<exists>st'. run_batch ?T ?M ep stk bad = Abort (err (batchNumber stk)) st'" for stk
    using cause
  proof
    assume "terminal bad = None \<and> (\<forall>T M p stk. \<exists>st'. run_batch T M p stk bad = Abort e st')"
    then show ?thesis by (simp add: err_def)
  next
    assume a: "terminal bad = Some last_op
          \<and> (generatedVideos last_op = None \<or> generatedVideos last_op = Some [])
          \<and> e = no_videos_error (Suc (length good))"
    then have "err (batchNumber stk) = no_videos_error (batchNumber stk)"
      by (simp add: err_def)
    with run_batch_no_videos [of bad last_op ?T ?M ep stk] a show ?thesis by simp
  qed
  have err_here: "err (batchNumber ?st + length good) = e"
    using cause by (auto simp: err_def batch_init_def)
  from batch_loop_fails_after_good [of good ?st ?T ?M ep bad err later, OF assms(4) pre2 fails]
  obtain st' where
    thrown: "batch_loop ?T ?M ep ?st (good @ bad # later) = Thrown e st'" and
    av: "allVideoUris st' = allVideoUris ?st @ concat (map delivered good)" and
    vg: "videosGenerated st' = videosGenerated ?st + length (concat (map delivered good))" and
    bn: "batchNumber st' = batchNumber ?st + length good" and
    rq: "length (requested (trace st')) = length (requested (trace ?st)) + Suc (length good)"
    unfolding err_here by blast
  have thrown': "batch_loop ?T ?M ep ?st (jobs w) = Thrown e st'"
    using thrown by (simp only: assms(3))
  have "allVideoUris st' = concat (map delivered good)"
    using av by (simp add: batch_init_def)
  moreover have "videosGenerated st' = length (concat (map delivered good))"
    using vg by (simp add: batch_init_def)
  moreover have "batchNumber st' = Suc (length good)"
    using bn by (simp add: batch_init_def)
  moreover have "length (requested (trace st')) = Suc (length good)"
    using rq by (simp add: batch_init_def requested_simps)
  moreover note generateVideos_Thrown [OF assms(1,2) thrown', of pg] thrown'
  ultimately show ?thesis by blast
qed

theorem failed_batch_aborts_run_witness:
  "''a cat'' \<noteq> []
   \<and> enhanced second_batch_fails = Inr ''a cat, portrait''
   \<and> jobs second_batch_fails =
       [polled_once [Some ''u1'', Some ''u2'']]
       @ \<lparr>submitted = Inr pending, polls = [Inl (JsError ''500 Internal error'')]\<rparr>
       # [polled_once [Some ''u5'']]
   \<and> has_videos (polled_once [Some ''u1'', Some ''u2''])
   \<and> length (concat (map delivered [polled_once [Some ''u1'', Some ''u2'']]))
       < totalVideosToGenerate
   \<and> poll_loop (poll_init pending) [] = Awaiting (poll_init pending)
   \<and> \<not> isRateLimitError (JsError ''500 Internal error'')
   \<and> batch_loop totalVideosToGenerate maxVideosPerRequest ''a cat, portrait''
        (batch_init [GenerateContent ''a cat'']) (jobs second_batch_fails) =
      Thrown (JsError ''Polling failed after 0 retries: 500 Internal error'')
        \<lparr>allVideoUris = [''u1'', ''u2''], videosGenerated = 2, batchNumber = 2,
         trace = [GenerateContent ''a cat'', Submit ''a cat, portrait'' 2, Sleep 20000, Poll,
                  Submit ''a cat, portrait'' 2, Sleep 20000, Poll]\<rparr>
   \<and> generateVideos second_batch_fails plain_page ''a cat'' =
      Returned \<lparr>resultsSection = [],
                statusMessage = ''An error occurred: Polling failed after 0 retries: 500 Internal error'',
                generateButtonDisabled = False, statusSectionDisplay = ''none''\<rparr>
               [GenerateContent ''a cat'', Submit ''a cat, portrait'' 2, Sleep 20000, Poll,
                Submit ''a cat, portrait'' 2, Sleep 20000, Poll,
                ConsoleError ''Video generation failed:''
                  (JsError ''Polling failed after 0 retries: 500 Internal error'')]
   \<and> [''u1'', ''u2''] = delivered (polled_once [Some ''u1'', Some ''u2''])"
proof -
  let ?bad = "\<lparr>submitted = Inr pending, polls = [Inl (JsError ''500 Internal error'')]\<rparr>"
  let ?e = "JsError ''Polling failed after 0 retries: 500 Internal error''"
  let ?st = "\<lparr>allVideoUris = [''u1'', ''u2''], videosGenerated = 2, batchNumber = 2,
         trace = [GenerateContent ''a cat'', Submit ''a cat, portrait'' 2, Sleep 20000, Poll,
                  Submit ''a cat, portrait'' 2, Sleep 20000, Poll]\<rparr>"
  have h1: "''a cat'' \<noteq> []" by simp
  have h2: "enhanced second_batch_fails = Inr ''a cat, portrait''"
    by (simp add: second_batch_fails_def)
  have h3: "jobs second_batch_fails =
       [polled_once [Some ''u1'', Some ''u2'']] @ ?bad # [polled_once [Some ''u5'']]"
    by (simp add: second_batch_fails_def)
  have g: "has_videos (polled_once [Some ''u1'', Some ''u2''])"
    by (simp add: has_videos_def run_simps)
  then have h4: "\<forall>j\<in>set [polled_once [Some ''u1'', Some ''u2'']]. has_videos j"
    by simp
  have d: "[''u1'', ''u2''] = delivered (polled_once [Some ''u1'', Some ''u2''])"
    by (simp add: run_simps)
  have h5: "length (concat (map delivered [polled_once [Some ''u1'', Some ''u2'']]))
       < totalVideosToGenerate"
    by (simp add: d [symmetric] totalVideosToGenerate_def)
  have c1: "submitted ?bad = Inr pending" by simp
  have c2: "polls ?bad = [] @ Inl (JsError ''500 Internal error'') # []" by simp
  have c3: "poll_loop (poll_init pending) [] = Awaiting (poll_init pending)"
    by (simp add: poll_init_def pending_def)
  have c4: "\<not> isRateLimitError (JsError ''500 Internal error'')" by simp
  have c5: "?e = JsError (''Polling failed after '' @ show_nat (pollRetries (poll_init pending))
                           @ '' retries: '' @ message_of (JsError ''500 Internal error''))"
    by (simp add: poll_init_def show_nat.simps)
  have h6: "submitted ?bad = Inl ?e
       \<or> (submitted ?bad = Inr pending
            \<and> polls ?bad = [] @ Inl (JsError ''500 Internal error'') # []
            \<and> poll_loop (poll_init pending) [] = Awaiting (poll_init pending)
            \<and> (maxPollRetries \<le> pollRetries (poll_init pending)
                 \<or> \<not> isRateLimitError (JsError ''500 Internal error''))
            \<and> ?e = JsError (''Polling failed after ''
                              @ show_nat (pollRetries (poll_init pending))
                              @ '' retries: '' @ message_of (JsError ''500 Internal error'')))
       \<or> (terminal ?bad = Some pending
            \<and> (generatedVideos pending = None \<or> generatedVideos pending = Some [])
            \<and> ?e = JsError (''Video generation batch ''
                              @ show_nat (Suc (length [polled_once [Some ''u1'', Some ''u2'']]))
                              @ '' failed to produce any videos.''))"
    using c1 c2 c3 c4 c5 by blast
  have ev: "batch_loop totalVideosToGenerate maxVideosPerRequest ''a cat, portrait''
        (batch_init [GenerateContent ''a cat'']) (jobs second_batch_fails) = Thrown ?e ?st"
    by (simp add: second_batch_fails_def totalVideosToGenerate_def maxVideosPerRequest_def
                  run_simps show_nat.simps)
  from failed_batch_aborts_run [OF h1 h2 h3 h4 h5 h6, of plain_page]
  obtain st' where
    th: "batch_loop totalVideosToGenerate maxVideosPerRequest ''a cat, portrait''
           (batch_init [GenerateContent ''a cat'']) (jobs second_batch_fails) = Thrown ?e st'" and
    gv: "generateVideos second_batch_fails plain_page ''a cat'' =
           Returned \<lparr>resultsSection = [],
                     statusMessage = ''An error occurred: '' @ message_of ?e,
                     generateButtonDisabled = False, statusSectionDisplay = ''none''\<rparr>
                    (trace st' @ [ConsoleError ''Video generation failed:'' ?e])"
    by blast
  from th ev have "st' = ?st" by simp
  with gv have gv': "generateVideos second_batch_fails plain_page ''a cat'' =
      Returned \<lparr>resultsSection = [],
                statusMessage = ''An error occurred: Polling failed after 0 retries: 500 Internal error'',
                generateButtonDisabled = False, statusSectionDisplay = ''none''\<rparr>
               [GenerateContent ''a cat'', Submit ''a cat, portrait'' 2, Sleep 20000, Poll,
                Submit ''a cat, portrait'' 2, Sleep 20000, Poll,
                ConsoleError ''Video generation failed:'' ?e]"
    by simp
  from h1 h2 h3 g h5 c3 c4 ev gv' d show ?thesis
    by (intro conjI)
qed

text \<open>
  C7 as stated has the error identify the index of the failed batch. A polling error
  does not: the same poll failure gives the same error whether it strikes the second
  batch or the first.
\<close>

theorem polling_error_does_not_name_its_batch:
  "batch_loop 5 2 ''p'' (batch_init [])
     [polled_once [Some ''u1'', Some ''u2''],
      \<lparr>submitted = Inr pending, polls = [Inl (JsError ''500 Internal error'')]\<rparr>,
      polled_once [Some ''u5'']] =
   Thrown (JsError ''Polling failed after 0 retries: 500 Internal error'')
     \<lparr>allVideoUris = [''u1'', ''u2''], videosGenerated = 2, batchNumber = 2,
      trace = [Submit ''p'' 2, Sleep 20000, Poll, Submit ''p'' 2, Sleep 20000, Poll]\<rparr>
   \<and> batch_loop 5 2 ''p'' (batch_init [])
     [\<lparr>submitted = Inr pending, polls = [Inl (JsError ''500 Internal error'')]\<rparr>,
      polled_once [Some ''u1'', Some ''u2''],
      polled_once [Some ''u5'']] =
   Thrown (JsError ''Polling failed after 0 retries: 500 Internal error'')
     \<lparr>allVideoUris = [], videosGenerated = 0, batchNumber = 1,
      trace = [Submit ''p'' 2, Sleep 20000, Poll]\<rparr>"
  by (simp add: run_simps show_nat.simps)

subsection \<open>The delivery of the results\<close>

text \<open>
  C9. When the batch loop has finished, the run returns with the status line of the
  final phase, not with an error, and the results area holds one entry for each
  accumulated uri. Each video is fetched; a video whose body arrives is shown and
  downloaded, whatever happens to the others, and a video whose fetch is rejected, or
  answered with a status that is not ok, or whose body cannot be read, is logged and
  shown as an entry of its own that says so.
\<close>

theorem delivery_failures_are_isolated:
  assumes "u \<noteq> []" and "enhanced w = Inr ep"
    and "batch_loop totalVideosToGenerate maxVideosPerRequest ep
           (batch_init [GenerateContent u]) (jobs w) = Finished st"
  shows "\<exists>pg' tr'. generateVideos w pg u = Returned pg' tr'
       \<and> statusMessage pg' = ''Finalizing all videos and preparing for download...''
       \<and> length (resultsSection pg') = length (allVideoUris st)
       \<and> (\<forall>i\<in>{1..length (allVideoUris st)}.
             Fetch (allVideoUris st ! (i - 1) @ ''&key='' @ api_key w) \<in> set tr'
           \<and> (case fetches w i of
                 ObjectURL videoUrl \<Rightarrow>
                   VideoContainer videoUrl (''Video '' @ show_nat i) \<in> set (resultsSection pg')
                   \<and> Click videoUrl (''generated_video_'' @ show_nat i @ ''.mp4'') \<in> set tr'
               | FetchRejected e \<Rightarrow>
                   ErrorContainer (''Could not load video '' @ show_nat i @ ''.'')
                     \<in> set (resultsSection pg')
                   \<and> ConsoleError (''Failed to process video '' @ show_nat i @ '':'') e \<in> set tr'
               | ResponseNotOk statusText \<Rightarrow>
                   ErrorContainer (''Could not load video '' @ show_nat i @ ''.'')
                     \<in> set (resultsSection pg')
                   \<and> ConsoleError (''Failed to process video '' @ show_nat i @ '':'')
                        (JsError (''Failed to fetch video '' @ show_nat i @ '': '' @ statusText))
                     \<in> set tr'
               | BlobRejected e \<Rightarrow>
                   ErrorContainer (''Could not load video '' @ show_nat i @ ''.'')
                     \<in> set (resultsSection pg')
                   \<and> ConsoleError (''Failed to process video '' @ show_nat i @ '':'') e \<in> set tr'))"
proof -
  let ?n = "length (allVideoUris st)"
  let ?items = "map (\<lambda>i. shown (fetches w i) i) (arrival w ?n)"
  let ?pg = "\<lparr>resultsSection = ?items,
              statusMessage = ''Finalizing all videos and preparing for download...'',
              generateButtonDisabled = False, statusSectionDisplay = ''none''\<rparr>"
  let ?tr = "trace st @ map (fetch_call (api_key w)) (allVideoUris st)
               @ map (\<lambda>i. logged (fetches w i) i) (arrival w ?n)"
  have run: "generateVideos w pg u = Returned ?pg ?tr"
    by (rule generateVideos_Finished [OF assms])
  have status: "statusMessage ?pg = ''Finalizing all videos and preparing for download...''"
    by simp
  have count: "length (resultsSection ?pg) = ?n"
    by (simp add: length_arrival)
  have each: "\<forall>i\<in>{1..?n}.
             Fetch (allVideoUris st ! (i - 1) @ ''&key='' @ api_key w) \<in> set ?tr
           \<and> (case fetches w i of
                 ObjectURL videoUrl \<Rightarrow>
                   VideoContainer videoUrl (''Video '' @ show_nat i) \<in> set (resultsSection ?pg)
                   \<and> Click videoUrl (''generated_video_'' @ show_nat i @ ''.mp4'') \<in> set ?tr
               | FetchRejected e \<Rightarrow>
                   ErrorContainer (''Could not load video '' @ show_nat i @ ''.'')
                     \<in> set (resultsSection ?pg)
                   \<and> ConsoleError (''Failed to process video '' @ show_nat i @ '':'') e \<in> set ?tr
               | ResponseNotOk statusText \<Rightarrow>
                   ErrorContainer (''Could not load video '' @ show_nat i @ ''.'')
                     \<in> set (resultsSection ?pg)
                   \<and> ConsoleError (''Failed to process video '' @ show_nat i @ '':'')
                        (JsError (''Failed to fetch video '' @ show_nat i @ '': '' @ statusText))
                     \<in> set ?tr
               | BlobRejected e \<Rightarrow>
                   ErrorContainer (''Could not load video '' @ show_nat i @ ''.'')
                     \<in> set (resultsSection ?pg)
                   \<and> ConsoleError (''Failed to process video '' @ show_nat i @ '':'') e \<in> set ?tr)"
  proof
    fix i
    assume i: "i \<in> {1..?n}"
    then have arr: "i \<in> set (arrival w ?n)"
      by (simp add: set_arrival)
    have item: "shown (fetches w i) i \<in> set (resultsSection ?pg)"
      using arr by simp
    have ev: "logged (fetches w i) i \<in> set ?tr"
      using arr by simp
    from i have "i - 1 < ?n" by auto
    then have "fetch_call (api_key w) (allVideoUris st ! (i - 1))
                 \<in> set (map (fetch_call (api_key w)) (allVideoUris st))"
      by simp
    then have fetch: "Fetch (allVideoUris st ! (i - 1) @ ''&key='' @ api_key w) \<in> set ?tr"
      by (simp add: fetch_call_def)
    show "Fetch (allVideoUris st ! (i - 1) @ ''&key='' @ api_key w) \<in> set ?tr
           \<and> (case fetches w i of
                 ObjectURL videoUrl \<Rightarrow>
                   VideoContainer videoUrl (''Video '' @ show_nat i) \<in> set (resultsSection ?pg)
                   \<and> Click videoUrl (''generated_video_'' @ show_nat i @ ''.mp4'') \<in> set ?tr
               | FetchRejected e \<Rightarrow>
                   ErrorContainer (''Could not load video '' @ show_nat i @ ''.'')
                     \<in> set (resultsSection ?pg)
                   \<and> ConsoleError (''Failed to process video '' @ show_nat i @ '':'') e \<in> set ?tr
               | ResponseNotOk statusText \<Rightarrow>
                   ErrorContainer (''Could not load video '' @ show_nat i @ ''.'')
                     \<in> set (resultsSection ?pg)
                   \<and> ConsoleError (''Failed to process video '' @ show_nat i @ '':'')
                        (JsError (''Failed to fetch video '' @ show_nat i @ '': '' @ statusText))
                     \<in> set ?tr
               | BlobRejected e \<Rightarrow>
                   ErrorContainer (''Could not load video '' @ show_nat i @ ''.'')
                     \<in> set (resultsSection ?pg)
                   \<and> ConsoleError (''Failed to process video '' @ show_nat i @ '':'') e \<in> set ?tr)"
    proof (cases "fetches w i")
      case (FetchRejected e)
      with item ev fetch show ?thesis
        by (simp add: shown_def logged_def)
    next
      case (ResponseNotOk t)
      with item ev fetch show ?thesis
        by (simp add: shown_def logged_def)
    next
      case (BlobRejected e)
      with item ev fetch show ?thesis
        by (simp add: shown_def logged_def)
    next
      case (ObjectURL url)
      with item ev fetch show ?thesis
        by (simp add: shown_def logged_def)
    qed
  qed
  from run status count each show ?thesis
    by blast
qed

theorem delivery_failures_are_isolated_witness:
  "''a cat'' \<noteq> []
   \<and> enhanced third_fetch_fails = Inr ''a cat, portrait''
   \<and> batch_loop totalVideosToGenerate maxVideosPerRequest ''a cat, portrait''
        (batch_init [GenerateContent ''a cat'']) (jobs third_fetch_fails) =
      Finished \<lparr>allVideoUris = [''u1'', ''u2'', ''u3'', ''u4'', ''u5''], videosGenerated = 5,
                batchNumber = 4,
                trace = [GenerateContent ''a cat'', Submit ''a cat, portrait'' 2, Sleep 20000, Poll,
                         Submit ''a cat, portrait'' 2, Sleep 20000, Poll,
                         Submit ''a cat, portrait'' 1, Sleep 20000, Poll]\<rparr>
   \<and> generateVideos third_fetch_fails plain_page ''a cat'' =
      Returned \<lparr>resultsSection =
                  [VideoContainer ''blob:5'' ''Video 5'', VideoContainer ''blob:4'' ''Video 4'',
                   ErrorContainer ''Could not load video 3.'',
                   VideoContainer ''blob:2'' ''Video 2'', VideoContainer ''blob:1'' ''Video 1''],
                statusMessage = ''Finalizing all videos and preparing for download...'',
                generateButtonDisabled = False, statusSectionDisplay = ''none''\<rparr>
               [GenerateContent ''a cat'', Submit ''a cat, portrait'' 2, Sleep 20000, Poll,
                Submit ''a cat, portrait'' 2, Sleep 20000, Poll,
                Submit ''a cat, portrait'' 1, Sleep 20000, Poll,
                Fetch ''u1&key=K'', Fetch ''u2&key=K'', Fetch ''u3&key=K'', Fetch ''u4&key=K'',
                Fetch ''u5&key=K'',
                Click ''blob:5'' ''generated_video_5.mp4'',
                Click ''blob:4'' ''generated_video_4.mp4'',
                ConsoleError ''Failed to process video 3:''
                  (JsError ''Failed to fetch video 3: Forbidden''),
                Click ''blob:2'' ''generated_video_2.mp4'',
                Click ''blob:1'' ''generated_video_1.mp4'']"
proof -
  have h1: "''a cat'' \<noteq> []" by simp
  have h2: "enhanced third_fetch_fails = Inr ''a cat, portrait''"
    by (simp add: third_fetch_fails_def)
  have h3: "batch_loop totalVideosToGenerate maxVideosPerRequest ''a cat, portrait''
        (batch_init [GenerateContent ''a cat'']) (jobs third_fetch_fails) =
      Finished \<lparr>allVideoUris = [''u1'', ''u2'', ''u3'', ''u4'', ''u5''], videosGenerated = 5,
                batchNumber = 4,
                trace = [GenerateContent ''a cat'', Submit ''a cat, portrait'' 2, Sleep 20000, Poll,
                         Submit ''a cat, portrait'' 2, Sleep 20000, Poll,
                         Submit ''a cat, portrait'' 1, Sleep 20000, Poll]\<rparr>"
    by (simp add: third_fetch_fails_def totalVideosToGenerate_def maxVideosPerRequest_def
                  run_simps)
  from delivery_failures_are_isolated [OF h1 h2 h3, of plain_page]
  obtain pg' tr' where
    run: "generateVideos third_fetch_fails plain_page ''a cat'' = Returned pg' tr'" and
    status: "statusMessage pg' = ''Finalizing all videos and preparing for download...''"
    by blast
  from generateVideos_Finished [OF h1 h2 h3, of plain_page]
  have eval: "generateVideos third_fetch_fails plain_page ''a cat'' =
      Returned \<lparr>resultsSection =
                  [VideoContainer ''blob:5'' ''Video 5'', VideoContainer ''blob:4'' ''Video 4'',
                   ErrorContainer ''Could not load video 3.'',
                   VideoContainer ''blob:2'' ''Video 2'', VideoContainer ''blob:1'' ''Video 1''],
                statusMessage = ''Finalizing all videos and preparing for download...'',
                generateButtonDisabled = False, statusSectionDisplay = ''none''\<rparr>
               [GenerateContent ''a cat'', Submit ''a cat, portrait'' 2, Sleep 20000, Poll,
                Submit ''a cat, portrait'' 2, Sleep 20000, Poll,
                Submit ''a cat, portrait'' 1, Sleep 20000, Poll,
                Fetch ''u1&key=K'', Fetch ''u2&key=K'', Fetch ''u3&key=K'', Fetch ''u4&key=K'',
                Fetch ''u5&key=K'',
                Click ''blob:5'' ''generated_video_5.mp4'',
                Click ''blob:4'' ''generated_video_4.mp4'',
                ConsoleError ''Failed to process video 3:''
                  (JsError ''Failed to fetch video 3: Forbidden''),
                Click ''blob:2'' ''generated_video_2.mp4'',
                Click ''blob:1'' ''generated_video_1.mp4'']"
    by (simp add: arrival_def third_fetch_fails_def upt_rec shown_def logged_def fetch_call_def
                  show_nat.simps)
  from run eval status
  have "statusMessage
          \<lparr>resultsSection =
             [VideoContainer ''blob:5'' ''Video 5'', VideoContainer ''blob:4'' ''Video 4'',
              ErrorContainer ''Could not load video 3.'',
              VideoContainer ''blob:2'' ''Video 2'', VideoContainer ''blob:1'' ''Video 1''],
           statusMessage = ''Finalizing all videos and preparing for download...'',
           generateButtonDisabled = False, statusSectionDisplay = ''none''\<rparr> =
        ''Finalizing all videos and preparing for download...''"
    by simp
  with h1 h2 h3 eval show ?thesis
    by (intro conjI)
qed

end
